theory Spec2Isabelle
  imports Complex_Main
begin

section \<open>JavaScript numbers\<close>

text \<open>
  A JavaScript number is a finite value, one of the two infinities, or NaN. Finite
  arithmetic is exact here (type \<open>real\<close>): rounding, overflow to an infinity and the
  sign of zero are outside the model. A zero divisor is read as \<open>+0\<close>; no division of
  the program reaches one (every divisor is guarded, see the chart geometry below).
\<close>

datatype jsnum = Fin real | PInf | NInf | NaN

text \<open>What \<open>typeof\<close> separates: a number, or anything else (undefined, null, a string).\<close>

datatype jsval = Number jsnum | NotNumber

instantiation jsnum :: "{plus, minus, uminus, times, inverse, ord}"
begin

fun uminus_jsnum :: "jsnum \<Rightarrow> jsnum" where
  "uminus_jsnum (Fin a) = Fin (- a)"
| "uminus_jsnum PInf = NInf"
| "uminus_jsnum NInf = PInf"
| "uminus_jsnum NaN = NaN"

fun plus_jsnum :: "jsnum \<Rightarrow> jsnum \<Rightarrow> jsnum" where
  "plus_jsnum NaN _ = NaN"
| "plus_jsnum _ NaN = NaN"
| "plus_jsnum (Fin a) (Fin b) = Fin (a + b)"
| "plus_jsnum (Fin a) PInf = PInf"
| "plus_jsnum (Fin a) NInf = NInf"
| "plus_jsnum PInf (Fin b) = PInf"
| "plus_jsnum PInf PInf = PInf"
| "plus_jsnum PInf NInf = NaN"
| "plus_jsnum NInf (Fin b) = NInf"
| "plus_jsnum NInf NInf = NInf"
| "plus_jsnum NInf PInf = NaN"

definition minus_jsnum :: "jsnum \<Rightarrow> jsnum \<Rightarrow> jsnum" where
  "minus_jsnum (a::jsnum) (b::jsnum) = a + (- b)"

text \<open>The sign of a product or quotient with an infinite operand.\<close>

fun signed_inf :: "bool \<Rightarrow> jsnum" where
  "signed_inf True = PInf"
| "signed_inf False = NInf"

fun times_jsnum :: "jsnum \<Rightarrow> jsnum \<Rightarrow> jsnum" where
  "times_jsnum NaN _ = NaN"
| "times_jsnum _ NaN = NaN"
| "times_jsnum (Fin a) (Fin b) = Fin (a * b)"
| "times_jsnum (Fin a) PInf = (if a = 0 then NaN else signed_inf (0 < a))"
| "times_jsnum (Fin a) NInf = (if a = 0 then NaN else signed_inf (a < 0))"
| "times_jsnum PInf (Fin b) = (if b = 0 then NaN else signed_inf (0 < b))"
| "times_jsnum NInf (Fin b) = (if b = 0 then NaN else signed_inf (b < 0))"
| "times_jsnum PInf PInf = PInf"
| "times_jsnum PInf NInf = NInf"
| "times_jsnum NInf PInf = NInf"
| "times_jsnum NInf NInf = PInf"

fun divide_jsnum :: "jsnum \<Rightarrow> jsnum \<Rightarrow> jsnum" where
  "divide_jsnum NaN _ = NaN"
| "divide_jsnum _ NaN = NaN"
| "divide_jsnum (Fin a) (Fin b) =
     (if b = 0 then (if a = 0 then NaN else signed_inf (0 < a)) else Fin (a / b))"
| "divide_jsnum (Fin a) PInf = Fin 0"
| "divide_jsnum (Fin a) NInf = Fin 0"
| "divide_jsnum PInf (Fin b) = signed_inf (0 \<le> b)"
| "divide_jsnum NInf (Fin b) = signed_inf (b < 0)"
| "divide_jsnum PInf PInf = NaN"
| "divide_jsnum PInf NInf = NaN"
| "divide_jsnum NInf PInf = NaN"
| "divide_jsnum NInf NInf = NaN"

fun inverse_jsnum :: "jsnum \<Rightarrow> jsnum" where
  "inverse_jsnum (Fin b) = (if b = 0 then PInf else Fin (1 / b))"
| "inverse_jsnum PInf = Fin 0"
| "inverse_jsnum NInf = Fin 0"
| "inverse_jsnum NaN = NaN"

text \<open>Comparisons: every comparison with NaN is false.\<close>

fun less_jsnum :: "jsnum \<Rightarrow> jsnum \<Rightarrow> bool" where
  "less_jsnum NaN _ = False"
| "less_jsnum _ NaN = False"
| "less_jsnum (Fin a) (Fin b) = (a < b)"
| "less_jsnum (Fin a) PInf = True"
| "less_jsnum (Fin a) NInf = False"
| "less_jsnum PInf _ = False"
| "less_jsnum NInf (Fin b) = True"
| "less_jsnum NInf PInf = True"
| "less_jsnum NInf NInf = False"

fun less_eq_jsnum :: "jsnum \<Rightarrow> jsnum \<Rightarrow> bool" where
  "less_eq_jsnum NaN _ = False"
| "less_eq_jsnum _ NaN = False"
| "less_eq_jsnum (a::jsnum) (b::jsnum) = (a < b \<or> a = b)"

instance ..

end

text \<open>Truthiness of a number (\<open>x ? a : b\<close>): false for zero and NaN.\<close>

fun truthy :: "jsnum \<Rightarrow> bool" where
  "truthy (Fin a) = (a \<noteq> 0)"
| "truthy PInf = True"
| "truthy NInf = True"
| "truthy NaN = False"

fun isFinite :: "jsnum \<Rightarrow> bool" where
  "isFinite (Fin a) = True"
| "isFinite _ = False"

section \<open>The leverage simulator\<close>

text \<open>
  A point \<^verbatim>\<open>{ time, value }\<close>. The chart's series hold numbers; the proxy builds its
  points from whatever the upstream arrays hold, so the field's type is a parameter.
\<close>

record 'v point =
  time :: real
  pvalue :: 'v

text \<open>
  The period return of \<open>buildSyntheticSeries\<close>:
  \<^verbatim>\<open>var r = prev ? (curr - prev) / prev : 0;\<close> (\<open>cur\<close> is the source's \<open>curr\<close>)
\<close>

definition simple_return :: "jsnum \<Rightarrow> jsnum \<Rightarrow> jsnum" where
  "simple_return prev cur = (if truthy prev then (cur - prev) / prev else Fin 0)"

text \<open>
  The iterations \<open>i \<ge> 1\<close> of the loop. The running \<open>base\<close> and the previous price
  \<open>spx[i - 1].value\<close> are carried along; each step pushes one point.
\<close>

fun synth_loop :: "jsnum \<Rightarrow> jsnum \<Rightarrow> jsnum \<Rightarrow> jsnum point list \<Rightarrow> jsnum point list" where
  "synth_loop leverage base prev [] = []"
| "synth_loop leverage base prev (p # ps) =
     (let cur = pvalue p;
          r = simple_return prev cur;
          base' = base * (Fin 1 + leverage * r)
      in \<lparr>time = time p, pvalue = base'\<rparr> # synth_loop leverage base' cur ps)"

text \<open>
  \<^verbatim>\<open>function buildSyntheticSeries(spx, leverage, baseStart)\<close>: empty input returns at once;
  a \<open>baseStart\<close> that is not of type number becomes 100; iteration 0 pushes the base.
\<close>

definition buildSyntheticSeries :: "jsnum point list \<Rightarrow> jsnum \<Rightarrow> jsval \<Rightarrow> jsnum point list" where
  "buildSyntheticSeries spx leverage baseStart =
     (case spx of
        [] \<Rightarrow> []
      | p # ps \<Rightarrow>
          (let base = (case baseStart of Number b \<Rightarrow> b | NotNumber \<Rightarrow> Fin 100)
           in \<lparr>time = time p, pvalue = base\<rparr> # synth_loop leverage base (pvalue p) ps))"

section \<open>The proxy\<close>

text \<open>
  What the handler of \<^verbatim>\<open>/api/spx\<close> gets from upstream: the fetch throws, or it answers
  with a status and a body; the body parses to JSON (or parsing throws), and the JSON
  holds, or does not hold, the array \<^verbatim>\<open>chart.result[0].timestamp\<close> and the array
  \<^verbatim>\<open>chart.result[0].indicators.quote[0].close\<close>.
\<close>

record payload =
  timestamp :: "real list option"
  close :: "jsval list option"

datatype upstream = Fetch_throws | Upstream nat "payload option"

datatype reply = Success "jsval point list" | Failure nat string

text \<open>\<^verbatim>\<open>close[i]\<close>: reading past the end of an array gives \<open>undefined\<close>.\<close>

definition js_index :: "jsval list \<Rightarrow> nat \<Rightarrow> jsval" where
  "js_index xs i = (if i < length xs then xs ! i else NotNumber)"

text \<open>\<^verbatim>\<open>Number.isFinite\<close>: true for a finite number only, with no coercion.\<close>

fun Number_isFinite :: "jsval \<Rightarrow> bool" where
  "Number_isFinite (Number n) = isFinite n"
| "Number_isFinite NotNumber = False"

text \<open>\<^verbatim>\<open>ts.map((t, i) => ...)\<close>: the callback gets the element and its index.\<close>

fun map_indexed :: "(real \<Rightarrow> nat \<Rightarrow> 'b) \<Rightarrow> nat \<Rightarrow> real list \<Rightarrow> 'b list" where
  "map_indexed f i [] = []"
| "map_indexed f i (t # ts) = f t i # map_indexed f (Suc i) ts"

definition proxy_series :: "real list \<Rightarrow> jsval list \<Rightarrow> jsval point list" where
  "proxy_series ts cl =
     filter (\<lambda>p. Number_isFinite (pvalue p))
       (map_indexed (\<lambda>t i. \<lparr>time = t * 1000, pvalue = js_index cl i\<rparr>) 0 ts)"

definition handler :: "upstream \<Rightarrow> reply" where
  "handler up =
     (case up of
        Fetch_throws \<Rightarrow> Failure 500 ''Internal error''
      | Upstream status body \<Rightarrow>
          if \<not> (200 \<le> status \<and> status \<le> 299) then Failure 502 ''Upstream failed''
          else (case body of
                  None \<Rightarrow> Failure 500 ''Internal error''
                | Some j \<Rightarrow>
                    (case timestamp j of
                       None \<Rightarrow> Failure 500 ''Bad upstream data''
                     | Some ts \<Rightarrow>
                         (case close j of
                            None \<Rightarrow> Failure 500 ''Bad upstream data''
                          | Some cl \<Rightarrow> Success (proxy_series ts cl)))))"

section \<open>Dates\<close>

text \<open>
  \<open>alignToInterval\<close> and \<open>addInterval\<close> work through the built-in \<open>Date\<close> in UTC.
  A Date holds a time value: an integral number of milliseconds since 1970-01-01T00:00Z
  of magnitude at most 8.64e15, or NaN (\<open>None\<close>). The functions below are the abstract
  operations by which ECMAScript defines the UTC getters and setters, on \<open>int\<close>
  (\<open>div\<close> and \<open>mod\<close> round towards minus infinity, as \<open>floor\<close> and \<open>modulo\<close> there).
\<close>

definition msPerDay :: int where "msPerDay = 86400000"
definition msPerHour :: int where "msPerHour = 3600000"
definition msPerMinute :: int where "msPerMinute = 60000"
definition msPerSecond :: int where "msPerSecond = 1000"
definition maxTime :: int where "maxTime = 8640000000000000"

definition Day :: "int \<Rightarrow> int" where
  "Day t = t div msPerDay"

definition TimeWithinDay :: "int \<Rightarrow> int" where
  "TimeWithinDay t = t mod msPerDay"

definition DaysInYear :: "int \<Rightarrow> int" where
  "DaysInYear y =
     (if y mod 4 \<noteq> 0 then 365
      else if y mod 100 \<noteq> 0 then 366
      else if y mod 400 \<noteq> 0 then 365
      else 366)"

definition DayFromYear :: "int \<Rightarrow> int" where
  "DayFromYear y =
     365 * (y - 1970) + (y - 1969) div 4 - (y - 1901) div 100 + (y - 1601) div 400"

text \<open>
  \<open>YearFromTime(t)\<close> is the largest \<open>y\<close> with \<open>DayFromYear y * msPerDay \<le> t\<close>. It is
  computed from the mean length of a year (146097 days in 400 years) and corrected by
  at most one year; \<open>YearFromTime_greatest\<close> below shows that this is that largest \<open>y\<close>.
\<close>

definition YearFromTime :: "int \<Rightarrow> int" where
  "YearFromTime t =
     (let d = Day t; y = 1970 + (400 * d) div 146097
      in if d < DayFromYear y then y - 1
         else if DayFromYear (y + 1) \<le> d then y + 1
         else y)"

definition InLeapYear :: "int \<Rightarrow> int" where
  "InLeapYear t = (if DaysInYear (YearFromTime t) = 366 then 1 else 0)"

definition DayWithinYear :: "int \<Rightarrow> int" where
  "DayWithinYear t = Day t - DayFromYear (YearFromTime t)"

definition MonthFromTime :: "int \<Rightarrow> int" where
  "MonthFromTime t =
     (let d = DayWithinYear t; l = InLeapYear t
      in if d < 31 then 0
         else if d < 59 + l then 1
         else if d < 90 + l then 2
         else if d < 120 + l then 3
         else if d < 151 + l then 4
         else if d < 181 + l then 5
         else if d < 212 + l then 6
         else if d < 243 + l then 7
         else if d < 273 + l then 8
         else if d < 304 + l then 9
         else if d < 334 + l then 10
         else 11)"

definition DateFromTime :: "int \<Rightarrow> int" where
  "DateFromTime t =
     (let d = DayWithinYear t; l = InLeapYear t; m = MonthFromTime t
      in if m = 0 then d + 1
         else if m = 1 then d - 30
         else if m = 2 then d - 58 - l
         else if m = 3 then d - 89 - l
         else if m = 4 then d - 119 - l
         else if m = 5 then d - 150 - l
         else if m = 6 then d - 180 - l
         else if m = 7 then d - 211 - l
         else if m = 8 then d - 242 - l
         else if m = 9 then d - 272 - l
         else if m = 10 then d - 303 - l
         else d - 333 - l)"

definition WeekDay :: "int \<Rightarrow> int" where
  "WeekDay t = (Day t + 4) mod 7"

definition HourFromTime :: "int \<Rightarrow> int" where
  "HourFromTime t = (t div msPerHour) mod 24"

definition MinFromTime :: "int \<Rightarrow> int" where
  "MinFromTime t = (t div msPerMinute) mod 60"

definition MakeTime :: "int \<Rightarrow> int \<Rightarrow> int \<Rightarrow> int \<Rightarrow> int" where
  "MakeTime hour minute sec ms =
     hour * msPerHour + minute * msPerMinute + sec * msPerSecond + ms"

text \<open>
  The day number on which month \<open>mn\<close> (0 to 11) of a year starts, counted from the start
  of the year: the boundaries of the table of \<open>MonthFromTime\<close>.
\<close>

definition MonthStart :: "int \<Rightarrow> int \<Rightarrow> int" where
  "MonthStart mn l =
     (if mn = 0 then 0
      else if mn = 1 then 31
      else if mn = 2 then 59 + l
      else if mn = 3 then 90 + l
      else if mn = 4 then 120 + l
      else if mn = 5 then 151 + l
      else if mn = 6 then 181 + l
      else if mn = 7 then 212 + l
      else if mn = 8 then 243 + l
      else if mn = 9 then 273 + l
      else if mn = 10 then 304 + l
      else 334 + l)"

text \<open>
  \<open>MakeDay(year, month, date)\<close>: with \<open>ym = year + floor(month / 12)\<close> and
  \<open>mn = month modulo 12\<close>, the day \<open>Day(t) + date - 1\<close> for the \<open>t\<close> whose year is \<open>ym\<close>,
  month \<open>mn\<close> and date 1 (\<open>MakeDay_first\<close> below shows that the day used here is that
  of such a \<open>t\<close>). The arguments are integers here, so the result is never NaN; the range
  of a Date is enforced by \<open>TimeClip\<close> alone, as implementations do.
\<close>

definition MakeDay :: "int \<Rightarrow> int \<Rightarrow> int \<Rightarrow> int" where
  "MakeDay year month date =
     (let ym = year + month div 12; mn = month mod 12
      in DayFromYear ym + MonthStart mn (if DaysInYear ym = 366 then 1 else 0) + date - 1)"

definition MakeDate :: "int \<Rightarrow> int \<Rightarrow> int" where
  "MakeDate day tm = day * msPerDay + tm"

definition TimeClip :: "int \<Rightarrow> int option" where
  "TimeClip t = (if \<bar>t\<bar> > maxTime then None else Some t)"

text \<open>
  \<^verbatim>\<open>new Date(ts)\<close> for a number: \<open>TimeClip\<close> of the number, which truncates a finite
  number in range towards zero and gives NaN otherwise.
\<close>

fun new_Date :: "jsnum \<Rightarrow> int option" where
  "new_Date (Fin r) =
     (if \<bar>r\<bar> > real_of_int maxTime then None
      else Some (if 0 \<le> r then \<lfloor>r\<rfloor> else \<lceil>r\<rceil>))"
| "new_Date PInf = None"
| "new_Date NInf = None"
| "new_Date NaN = None"

fun getTime :: "int option \<Rightarrow> jsnum" where
  "getTime None = NaN"
| "getTime (Some t) = Fin (real_of_int t)"

text \<open>
  The setters, at a valid time value \<open>t\<close> (on an invalid Date each of them returns NaN
  and leaves the Date invalid, which \<open>Option.bind\<close> does below).
\<close>

definition setUTCDate :: "int \<Rightarrow> int \<Rightarrow> int option" where
  "setUTCDate t dt =
     TimeClip (MakeDate (MakeDay (YearFromTime t) (MonthFromTime t) dt) (TimeWithinDay t))"

definition setUTCMonth :: "int \<Rightarrow> int \<Rightarrow> int option" where
  "setUTCMonth t m =
     TimeClip (MakeDate (MakeDay (YearFromTime t) m (DateFromTime t)) (TimeWithinDay t))"

definition setUTCHours :: "int \<Rightarrow> int \<Rightarrow> int \<Rightarrow> int \<Rightarrow> int \<Rightarrow> int option" where
  "setUTCHours t h m s ms = TimeClip (MakeDate (Day t) (MakeTime h m s ms))"

definition setUTCMinutes :: "int \<Rightarrow> int \<Rightarrow> int \<Rightarrow> int \<Rightarrow> int option" where
  "setUTCMinutes t m s ms = TimeClip (MakeDate (Day t) (MakeTime (HourFromTime t) m s ms))"

definition setUTCSeconds :: "int \<Rightarrow> int \<Rightarrow> int \<Rightarrow> int option" where
  "setUTCSeconds t s ms =
     TimeClip (MakeDate (Day t) (MakeTime (HourFromTime t) (MinFromTime t) s ms))"

section \<open>Axis and scale utilities\<close>

text \<open>\<open>intervalToStepMs\<close>: \<open>None\<close> is the \<open>null\<close> of the month.\<close>

definition intervalToStepMs :: "string \<Rightarrow> real option" where
  "intervalToStepMs interval =
     (if interval = ''1'' then Some (60 * 1000)
      else if interval = ''5'' then Some (5 * 60 * 1000)
      else if interval = ''15'' then Some (15 * 60 * 1000)
      else if interval = ''60'' then Some (60 * 60 * 1000)
      else if interval = ''D'' then Some (24 * 60 * 60 * 1000)
      else if interval = ''W'' then Some (7 * 24 * 60 * 60 * 1000)
      else if interval = ''M'' then None
      else Some (24 * 60 * 60 * 1000))"

text \<open>
  The body of \<open>alignToInterval\<close> after \<^verbatim>\<open>var d = new Date(ts)\<close>, for a valid Date with
  time value \<open>t\<close>; the result is the Date's time value at the \<open>return\<close>.
\<close>

definition align_date :: "int \<Rightarrow> string \<Rightarrow> int option" where
  "align_date t interval =
     (if interval = ''M'' then
        Option.bind (setUTCDate t 1) (\<lambda>t1. setUTCHours t1 0 0 0 0)
      else if interval = ''W'' then
        (let day = WeekDay t; diff = (day + 6) mod 7
         in Option.bind (setUTCDate t (DateFromTime t - diff)) (\<lambda>t1. setUTCHours t1 0 0 0 0))
      else if interval = ''D'' then setUTCHours t 0 0 0 0
      else if interval = ''60'' then setUTCMinutes t 0 0 0
      else if interval = ''15'' then setUTCMinutes t (MinFromTime t div 15 * 15) 0 0
      else if interval = ''5'' then setUTCMinutes t (MinFromTime t div 5 * 5) 0 0
      else if interval = ''1'' then setUTCSeconds t 0 0
      else Some t)"

definition alignToInterval :: "jsnum \<Rightarrow> string \<Rightarrow> jsnum" where
  "alignToInterval ts interval =
     getTime (Option.bind (new_Date ts) (\<lambda>t. align_date t interval))"

definition addInterval :: "jsnum \<Rightarrow> string \<Rightarrow> jsnum" where
  "addInterval ts interval =
     (if interval = ''M'' then
        getTime (Option.bind (new_Date ts) (\<lambda>t. setUTCMonth t (MonthFromTime t + 1)))
      else
        (let step = (case intervalToStepMs interval of
                       None \<Rightarrow> 24 * 60 * 60 * 1000
                     | Some s \<Rightarrow> if s = 0 then 24 * 60 * 60 * 1000 else s)
         in ts + Fin step))"

section \<open>The chart geometry\<close>

text \<open>
  Times, pixel sizes and the bounds of a domain are finite numbers (type \<open>real\<close>);
  prices and everything computed from them are \<open>jsnum\<close>, so that what the code does
  with NaN and the infinities is part of the model.
\<close>

record xdomain =
  x0 :: real
  x1 :: real

text \<open>\<^verbatim>\<open>Math.max\<close>, \<^verbatim>\<open>Math.min\<close> (NaN if an argument is), \<^verbatim>\<open>Math.abs\<close>, \<^verbatim>\<open>Math.log\<close>, \<^verbatim>\<open>Math.exp\<close>.\<close>

fun Math_max :: "jsnum \<Rightarrow> jsnum \<Rightarrow> jsnum" where
  "Math_max NaN _ = NaN"
| "Math_max _ NaN = NaN"
| "Math_max a b = (if a < b then b else a)"

fun Math_min :: "jsnum \<Rightarrow> jsnum \<Rightarrow> jsnum" where
  "Math_min NaN _ = NaN"
| "Math_min _ NaN = NaN"
| "Math_min a b = (if b < a then b else a)"

fun Math_abs :: "jsnum \<Rightarrow> jsnum" where
  "Math_abs (Fin a) = Fin \<bar>a\<bar>"
| "Math_abs PInf = PInf"
| "Math_abs NInf = PInf"
| "Math_abs NaN = NaN"

fun Math_log :: "jsnum \<Rightarrow> jsnum" where
  "Math_log (Fin a) = (if 0 < a then Fin (ln a) else if a = 0 then NInf else NaN)"
| "Math_log PInf = PInf"
| "Math_log NInf = NaN"
| "Math_log NaN = NaN"

fun Math_exp :: "jsnum \<Rightarrow> jsnum" where
  "Math_exp (Fin a) = Fin (exp a)"
| "Math_exp PInf = PInf"
| "Math_exp NInf = Fin 0"
| "Math_exp NaN = NaN"

text \<open>
  The errors the chart code can throw. Reading a property of \<open>undefined\<close> (an element of an
  empty array) throws a \<open>TypeError\<close>; a call through \<^verbatim>\<open>apply\<close> with more array elements than
  the engine passes as arguments throws a \<open>RangeError\<close>.
\<close>

datatype js_error = TypeError | RangeError

text \<open>
  \<^verbatim>\<open>Math.min.apply(null, xs)\<close> and \<^verbatim>\<open>Math.max.apply(null, xs)\<close>: every element of \<open>xs\<close> becomes
  an argument of one call. The result is plus and minus infinity for no argument. The
  number of arguments one call can take is the engine's and not the program's, so it is the
  parameter \<open>maxArgs\<close>: an array longer than that makes the call throw.
\<close>

definition Math_min_apply :: "nat \<Rightarrow> jsnum list \<Rightarrow> js_error + jsnum" where
  "Math_min_apply maxArgs xs =
     (if maxArgs < length xs then Inl RangeError else Inr (foldl Math_min PInf xs))"

definition Math_max_apply :: "nat \<Rightarrow> jsnum list \<Rightarrow> js_error + jsnum" where
  "Math_max_apply maxArgs xs =
     (if maxArgs < length xs then Inl RangeError else Inr (foldl Math_max NInf xs))"

text \<open>\<open>===\<close> on numbers: NaN equals nothing.\<close>

definition strict_eq :: "jsnum \<Rightarrow> jsnum \<Rightarrow> bool" where
  "strict_eq a b = (a = b \<and> a \<noteq> NaN)"

text \<open>
  What the chart draws. The path string \<^verbatim>\<open>"M x y L x y ..."\<close> is kept as its list of
  commands; a label is kept as the number it prints and the format it prints it in
  (\<open>tickLabel\<close> formats a date by the locale, \<open>toFixed\<close> a number).
\<close>

datatype path_cmd = MoveTo jsnum jsnum | LineTo jsnum jsnum

datatype date_label = TimeOfDay jsnum | MonthDay jsnum | MonthYear jsnum

datatype number_label = Percent1 jsnum | Fixed2 jsnum

record xtick =
  tick_x :: jsnum
  tick_ts :: jsnum

record xlabel =
  label_x :: jsnum
  label_text :: date_label

record ytick =
  ytick_y :: jsnum
  ytick_label :: number_label

record chart =
  path :: "path_cmd list"
  xTicks :: "xtick list"
  xLabels :: "xlabel list"
  yTicks :: "ytick list"
  xScale :: "jsnum \<Rightarrow> jsnum"
  yScale :: "jsnum \<Rightarrow> jsnum"
  lastp :: "jsnum point option"
  anchor :: jsnum

definition tickLabel :: "jsnum \<Rightarrow> string \<Rightarrow> date_label" where
  "tickLabel ts interval =
     (if interval = ''1'' \<or> interval = ''5'' \<or> interval = ''15'' \<or> interval = ''60''
      then TimeOfDay ts
      else if interval = ''D'' \<or> interval = ''W'' then MonthDay ts
      else MonthYear ts)"

text \<open>
  The visible slice: the points within \<open>[xMin, xMax]\<close>, or the whole series when there
  is none.
\<close>

definition visible_slice :: "jsnum point list \<Rightarrow> real \<Rightarrow> real \<Rightarrow> jsnum point list" where
  "visible_slice data xMin xMax =
     (let slice = filter (\<lambda>d. time d \<ge> xMin \<and> time d \<le> xMax) data
      in if slice = [] then data else slice)"

definition useLog_of :: "string \<Rightarrow> jsnum list \<Rightarrow> bool" where
  "useLog_of yMode vals = (yMode = ''log'' \<and> list_all (\<lambda>v. Fin 0 < v) vals)"

definition tf_of :: "bool \<Rightarrow> string \<Rightarrow> jsnum \<Rightarrow> jsnum \<Rightarrow> jsnum" where
  "tf_of useLog yMode anch =
     (if useLog then (\<lambda>v. Math_log v)
      else if yMode = ''percent'' then
        (\<lambda>v. let ref = Math_max (Fin (1 / 1000000000)) anch in (v / ref - Fin 1) * Fin 100)
      else (\<lambda>v. v))"

definition invf_of :: "bool \<Rightarrow> string \<Rightarrow> jsnum \<Rightarrow> jsnum \<Rightarrow> jsnum" where
  "invf_of useLog yMode anch =
     (if useLog then (\<lambda>v. Math_exp v)
      else if yMode = ''percent'' then
        (\<lambda>p. let ref = Math_max (Fin (1 / 1000000000)) anch in ref * (Fin 1 + p / Fin 100))
      else (\<lambda>v. v))"

text \<open>
  The transformed range, from the minimum and the maximum of the transformed values: they
  are replaced by 0 and 1 when one of them is not finite, widened by 1 on each side when
  they are equal, then padded by a tenth of the range on each side.
\<close>

definition padded_range :: "jsnum \<Rightarrow> jsnum \<Rightarrow> jsnum \<times> jsnum" where
  "padded_range tMin tMax =
     (let (tMin, tMax) = (if \<not> (isFinite tMin \<and> isFinite tMax) then (Fin 0, Fin 1)
                          else (tMin, tMax));
          (tMin, tMax) = (if strict_eq tMin tMax then (tMin - Fin 1, tMax + Fin 1)
                          else (tMin, tMax));
          padTopBottom = (tMax - tMin) * Fin (1 / 10)
      in (tMin - padTopBottom, tMax + padTopBottom))"

text \<open>
  The two calls through \<^verbatim>\<open>apply\<close> come first, the minimum before the maximum; either can
  throw.
\<close>

definition transformed_range :: "nat \<Rightarrow> jsnum list \<Rightarrow> js_error + jsnum \<times> jsnum" where
  "transformed_range maxArgs tVals =
     (case Math_min_apply maxArgs tVals of
        Inl e \<Rightarrow> Inl e
      | Inr tMin \<Rightarrow>
          (case Math_max_apply maxArgs tVals of
             Inl e \<Rightarrow> Inl e
           | Inr tMax \<Rightarrow> Inr (padded_range tMin tMax)))"

text \<open>The divisors of the two scales: \<^verbatim>\<open>Math.max(1, xMax - xMin)\<close> and \<^verbatim>\<open>Math.max(1e-9, tMax - tMin)\<close>.\<close>

definition x_divisor :: "real \<Rightarrow> real \<Rightarrow> real" where
  "x_divisor xMin xMax = max 1 (xMax - xMin)"

definition y_divisor :: "jsnum \<Rightarrow> jsnum \<Rightarrow> jsnum" where
  "y_divisor tMin tMax = Math_max (Fin (1 / 1000000000)) (tMax - tMin)"

definition xScale_of :: "real \<Rightarrow> real \<Rightarrow> real \<Rightarrow> real \<Rightarrow> real \<Rightarrow> jsnum \<Rightarrow> jsnum" where
  "xScale_of width padLeft rightMargin xMin xMax t =
     Fin padLeft + ((t - Fin xMin) / Fin (x_divisor xMin xMax)) * Fin (width - padLeft - rightMargin)"

definition y_pixel :: "real \<Rightarrow> real \<Rightarrow> jsnum \<Rightarrow> jsnum \<Rightarrow> jsnum \<Rightarrow> jsnum" where
  "y_pixel height padLeft tMin tMax tv =
     Fin (height - padLeft) - ((tv - tMin) / y_divisor tMin tMax) * Fin (height - 2 * padLeft)"

definition yScale_of ::
  "real \<Rightarrow> real \<Rightarrow> (jsnum \<Rightarrow> jsnum) \<Rightarrow> jsnum \<Rightarrow> jsnum \<Rightarrow> jsnum \<Rightarrow> jsnum" where
  "yScale_of height padLeft tf tMin tMax v = y_pixel height padLeft tMin tMax (tf v)"

text \<open>The path: a move to the first scaled point, a line to each of the others.\<close>

definition path_of :: "(jsnum \<Rightarrow> jsnum) \<Rightarrow> (jsnum \<Rightarrow> jsnum) \<Rightarrow> jsnum point list \<Rightarrow> path_cmd list" where
  "path_of xs ys slice =
     (case slice of
        [] \<Rightarrow> []
      | p # ps \<Rightarrow> MoveTo (xs (Fin (time p))) (ys (pvalue p))
                 # map (\<lambda>q. LineTo (xs (Fin (time q))) (ys (pvalue q))) ps)"

text \<open>
  The tick loop \<^verbatim>\<open>while (t <= xMax && count < guard)\<close>; the first argument is
  \<open>guard - count\<close>, 5000 at the start.
\<close>

fun tick_loop :: "nat \<Rightarrow> (jsnum \<Rightarrow> jsnum) \<Rightarrow> string \<Rightarrow> real \<Rightarrow> jsnum \<Rightarrow> xtick list" where
  "tick_loop 0 xs interval xMax t = []"
| "tick_loop (Suc g) xs interval xMax t =
     (if t \<le> Fin xMax
      then \<lparr>tick_x = xs t, tick_ts = t\<rparr> # tick_loop g xs interval xMax (addInterval t interval)
      else [])"

definition xTicks_of :: "(jsnum \<Rightarrow> jsnum) \<Rightarrow> string \<Rightarrow> real \<Rightarrow> real \<Rightarrow> xtick list" where
  "xTicks_of xs interval xMin xMax =
     (let ticks = tick_loop 5000 xs interval xMax (alignToInterval (Fin xMin) interval)
      in if length ticks < 2
         then ticks @ [\<lparr>tick_x = xs (Fin xMin), tick_ts = Fin xMin\<rparr>,
                       \<lparr>tick_x = xs (Fin xMax), tick_ts = Fin xMax\<rparr>]
         else ticks)"

text \<open>
  The labels: a tick is labelled when it is at least \<open>MIN_GAP = 80\<close> to the right of the
  last labelled one (\<open>lastLabeledX\<close>, minus infinity at the start).
\<close>

fun label_loop :: "string \<Rightarrow> jsnum \<Rightarrow> xtick list \<Rightarrow> xlabel list" where
  "label_loop interval lastLabeledX [] = []"
| "label_loop interval lastLabeledX (tick # ticks) =
     (if Fin 80 \<le> tick_x tick - lastLabeledX
      then \<lparr>label_x = tick_x tick, label_text = tickLabel (tick_ts tick) interval\<rparr>
             # label_loop interval (tick_x tick) ticks
      else label_loop interval lastLabeledX ticks)"

definition xLabels_of :: "string \<Rightarrow> xtick list \<Rightarrow> js_error + xlabel list" where
  "xLabels_of interval ticks =
     (let labels = label_loop interval NInf ticks
      in if labels = [] then Inr labels
         else (case ticks of
                 [] \<Rightarrow> Inl TypeError
               | tick0 # _ \<Rightarrow>
                   (let first = hd labels;
                        lastLabel = last labels;
                        tickN = last ticks;
                        wantsFirst = (Fin (80 / 2) < Math_abs (label_x first - tick_x tick0));
                        wantsLast = (Fin (80 / 2) < Math_abs (label_x lastLabel - tick_x tickN));
                        labels1 = (if wantsFirst
                                   then \<lparr>label_x = tick_x tick0,
                                          label_text = tickLabel (tick_ts tick0) interval\<rparr> # labels
                                   else labels);
                        labels2 = (if wantsLast
                                   then labels1 @ [\<lparr>label_x = tick_x tickN,
                                          label_text = tickLabel (tick_ts tickN) interval\<rparr>]
                                   else labels1)
                    in Inr labels2)))"

definition yTicks_of ::
  "real \<Rightarrow> real \<Rightarrow> string \<Rightarrow> (jsnum \<Rightarrow> jsnum) \<Rightarrow> jsnum \<Rightarrow> jsnum \<Rightarrow> jsnum \<Rightarrow> ytick list" where
  "yTicks_of height padLeft yMode invf anch tMin tMax =
     map (\<lambda>j. let tv = tMin + ((tMax - tMin) / Fin (6 - 1)) * Fin (real j);
                   raw = invf tv;
                   label = (if yMode = ''percent''
                            then Percent1 ((raw / Math_max (Fin (1 / 1000000000)) anch - Fin 1) * Fin 100)
                            else Fixed2 raw)
               in \<lparr>ytick_y = y_pixel height padLeft tMin tMax tv, ytick_label = label\<rparr>)
       [0 ..< 6]"

text \<open>
  \<open>useChartPath\<close> (the function under \<open>useMemo\<close>). \<open>slice[0]\<close> and \<open>xTicks[0]\<close> are the
  reads that throw on an empty array, and the two calls through \<^verbatim>\<open>apply\<close> throw on a slice
  longer than \<open>maxArgs\<close>.
\<close>

definition useChartPath ::
  "nat \<Rightarrow> jsnum point list \<Rightarrow> real \<Rightarrow> real \<Rightarrow> real \<Rightarrow> string \<Rightarrow> xdomain \<Rightarrow> string \<Rightarrow> real
   \<Rightarrow> js_error + chart" where
  "useChartPath maxArgs data width height padLeft interval domain yMode rightMargin =
     (if data = [] then
        Inr \<lparr>path = [], xTicks = [], xLabels = [], yTicks = [],
             xScale = (\<lambda>t. t), yScale = (\<lambda>v. v), lastp = None, anchor = Fin 0\<rparr>
      else
        (let dataXMin = time (hd data);
             dataXMax = time (last data);
             xMin = max (x0 domain) dataXMin;
             xMax = min (x1 domain) dataXMax;
             slice = visible_slice data xMin xMax
         in case slice of
              [] \<Rightarrow> Inl TypeError
            | s0 # _ \<Rightarrow>
                (let anch = pvalue s0;
                     vals = map pvalue slice;
                     useLog = useLog_of yMode vals;
                     tf = tf_of useLog yMode anch;
                     invf = invf_of useLog yMode anch
                 in case transformed_range maxArgs (map tf vals) of
                      Inl e \<Rightarrow> Inl e
                    | Inr (tMin, tMax) \<Rightarrow>
                        (let xs = xScale_of width padLeft rightMargin xMin xMax;
                             ys = yScale_of height padLeft tf tMin tMax;
                             ticks = xTicks_of xs interval xMin xMax
                         in case xLabels_of interval ticks of
                              Inl e \<Rightarrow> Inl e
                            | Inr labels \<Rightarrow>
                                Inr \<lparr>path = path_of xs ys slice,
                                     xTicks = ticks,
                                     xLabels = labels,
                                     yTicks = yTicks_of height padLeft yMode invf anch tMin tMax,
                                     xScale = xs,
                                     yScale = ys,
                                     lastp = Some (last slice),
                                     anchor = anch\<rparr>))))"

text \<open>
  The condition of the component's first runtime test, which every render evaluates on the
  chart it has just computed:
  \<^verbatim>\<open>console.assert(xTicks.length >= 2, "Expected at least 2 x-ticks")\<close>. The test after it, on
  the first synthetic value, is under \<^verbatim>\<open>if (synth.length)\<close>; this one is under no condition.
\<close>

definition assert_xTicks :: "chart \<Rightarrow> bool" where
  "assert_xTicks ch = (2 \<le> length (xTicks ch))"

section \<open>The viewport: zoom, pan and crosshair\<close>

text \<open>The constants of the component: \<^verbatim>\<open>width = 1200\<close>, \<^verbatim>\<open>height = 640\<close>, \<^verbatim>\<open>rightMargin = 90\<close>.\<close>

definition chart_width :: real where "chart_width = 1200"
definition chart_height :: real where "chart_height = 640"
definition chart_rightMargin :: real where "chart_rightMargin = 90"

text \<open>
  What the handlers read of an event: \<open>e.clientX\<close>, the left edge of
  \<open>e.currentTarget.getBoundingClientRect()\<close>, and \<open>e.deltaY\<close> of a wheel event.
\<close>

record mouse_event =
  clientX :: real
  rect_left :: real
  deltaY :: real

record pan_start =
  pan_x :: real
  pan_x0 :: real
  pan_x1 :: real

record crosshair =
  cross_x :: jsnum
  cross_y :: jsnum
  cross_ts :: real
  cross_price :: jsnum

text \<open>
  The state of the component that the handlers read and set: the synthetic series, the
  interval and the y-mode of the render, the domain override (\<open>None\<close> is auto-fit),
  \<open>isPanning\<close>, \<open>panStart.current\<close> and the crosshair.
\<close>

record view =
  v_synth :: "jsnum point list"
  v_interval :: string
  v_yMode :: string
  v_domain :: "xdomain option"
  v_isPanning :: bool
  v_panStart :: "pan_start option"
  v_cross :: "crosshair option"

definition fullDomain :: "jsnum point list \<Rightarrow> xdomain" where
  "fullDomain synth =
     \<lparr>x0 = (case synth of [] \<Rightarrow> 0 | p # _ \<Rightarrow> time p),
      x1 = (if synth = [] then 1 else time (last synth))\<rparr>"

definition activeDomain :: "view \<Rightarrow> xdomain" where
  "activeDomain st =
     (case v_domain st of None \<Rightarrow> fullDomain (v_synth st) | Some d \<Rightarrow> d)"

text \<open>The chart of a render, in an engine that passes at most \<open>maxArgs\<close> arguments.\<close>

definition chart_of :: "nat \<Rightarrow> view \<Rightarrow> js_error + chart" where
  "chart_of maxArgs st =
     useChartPath maxArgs (v_synth st) chart_width chart_height 40 (v_interval st)
       (activeDomain st) (v_yMode st) chart_rightMargin"

text \<open>The timestamp under pixel \<open>px\<close> in the active domain \<open>a\<close>.\<close>

definition cursor_time :: "xdomain \<Rightarrow> real \<Rightarrow> real" where
  "cursor_time a px =
     x0 a + ((px - 40) / max 1 (chart_width - 40 - chart_rightMargin)) * (x1 a - x0 a)"

text \<open>
  The domain that \<open>onWheel\<close> sets, from the active domain \<open>a\<close>, the full domain, the
  cursor pixel \<open>px = e.clientX - rect.left\<close> and \<open>e.deltaY\<close>.
\<close>

definition zoom_domain :: "xdomain \<Rightarrow> xdomain \<Rightarrow> real \<Rightarrow> real \<Rightarrow> xdomain" where
  "zoom_domain a full px dY =
     (let tAtCursor = cursor_time a px;
          zoomIntensity = 2 / 10;
          direction = (if dY > 0 then 1 else - 1);
          scale = exp (direction * zoomIntensity);
          newX0 = tAtCursor - (tAtCursor - x0 a) * scale;
          newX1 = tAtCursor + (x1 a - tAtCursor) * scale;
          minSpan = (x1 full - x0 full) / 500;
          nx0 = max (x0 full) (min newX0 (newX1 - minSpan));
          nx1 = min (x1 full) (max newX1 (newX0 + minSpan))
      in \<lparr>x0 = nx0, x1 = nx1\<rparr>)"

definition onWheel :: "view \<Rightarrow> mouse_event \<Rightarrow> view" where
  "onWheel st e =
     (if v_synth st = [] then st
      else st\<lparr>v_domain :=
                Some (zoom_domain (activeDomain st) (fullDomain (v_synth st))
                        (clientX e - rect_left e) (deltaY e))\<rparr>)"

definition onPointerDown :: "view \<Rightarrow> mouse_event \<Rightarrow> view" where
  "onPointerDown st e =
     st\<lparr>v_isPanning := True,
        v_panStart := Some \<lparr>pan_x = clientX e, pan_x0 = x0 (activeDomain st),
                             pan_x1 = x1 (activeDomain st)\<rparr>\<rparr>"

definition clamp :: "real \<Rightarrow> real \<Rightarrow> real \<Rightarrow> real" where
  "clamp n lo hi = max lo (min hi n)"

text \<open>
  The crosshair loop over the series: \<open>best\<close> starts at infinity and \<open>nearest\<close> at
  \<open>synth[0]\<close>; a point outside the active domain is skipped.
\<close>

fun nearest_loop ::
  "xdomain \<Rightarrow> real \<Rightarrow> jsnum \<Rightarrow> jsnum point \<Rightarrow> jsnum point list \<Rightarrow> jsnum point" where
  "nearest_loop a ts best nearest [] = nearest"
| "nearest_loop a ts best nearest (p # ps) =
     (if time p < x0 a \<or> time p > x1 a then nearest_loop a ts best nearest ps
      else (let d = \<bar>time p - ts\<bar>
            in if Fin d < best then nearest_loop a ts (Fin d) p ps
               else nearest_loop a ts best nearest ps))"

definition nearest_point :: "jsnum point list \<Rightarrow> xdomain \<Rightarrow> real \<Rightarrow> jsnum point" where
  "nearest_point synth a ts = nearest_loop a ts PInf (hd synth) synth"

text \<open>
  The pan branch: the domain set from \<open>panStart.current\<close> and the pointer. The three
  \<open>if\<close> statements are taken in order (\<open>a\<close>, \<open>b\<close>, \<open>c\<close> are \<open>x0\<close>, \<open>x1\<close> after each); within
  the second, \<open>x1\<close> is updated from the old \<open>x0\<close>, within the third \<open>x0\<close> from the old \<open>x1\<close>.
\<close>

definition pan_domain :: "pan_start \<Rightarrow> xdomain \<Rightarrow> real \<Rightarrow> xdomain" where
  "pan_domain ps full cx =
     (let dxPx = cx - pan_x ps;
          span = pan_x1 ps - pan_x0 ps;
          dt = (- dxPx / max 1 (chart_width - 40 - chart_rightMargin)) * span;
          a0 = pan_x0 ps + dt;
          a1 = pan_x1 ps + dt;
          spanMin = (x1 full - x0 full) / 1000;
          a1 = (if a1 - a0 < spanMin then a0 + spanMin else a1);
          b1 = (if a0 < x0 full then a1 + (x0 full - a0) else a1);
          b0 = (if a0 < x0 full then x0 full else a0);
          c0 = (if b1 > x1 full then b0 - (b1 - x1 full) else b0);
          c1 = (if b1 > x1 full then x1 full else b1)
      in \<lparr>x0 = c0, x1 = c1\<rparr>)"

text \<open>
  \<open>onPointerMove\<close>. The handler closes over \<open>xScale\<close> and \<open>yScale\<close> of the render it
  belongs to, so it exists only if that render did not throw.
\<close>

definition onPointerMove :: "nat \<Rightarrow> view \<Rightarrow> mouse_event \<Rightarrow> js_error + view" where
  "onPointerMove maxArgs st e =
     (case chart_of maxArgs st of
        Inl err \<Rightarrow> Inl err
      | Inr ch \<Rightarrow>
          (let a = activeDomain st;
               full = fullDomain (v_synth st);
               px = clamp (clientX e - rect_left e) 0 chart_width;
               ts = cursor_time a px;
               st1 = (if v_synth st \<noteq> [] then
                        (let nearest = nearest_point (v_synth st) a ts
                         in st\<lparr>v_cross := Some \<lparr>cross_x = xScale ch (Fin (time nearest)),
                                                  cross_y = yScale ch (pvalue nearest),
                                                  cross_ts = time nearest,
                                                  cross_price = pvalue nearest\<rparr>\<rparr>)
                      else st)
           in Inr (if v_isPanning st then
                     (case v_panStart st of
                        None \<Rightarrow> st1
                      | Some ps \<Rightarrow> st1\<lparr>v_domain := Some (pan_domain ps full (clientX e))\<rparr>)
                   else st1)))"

definition onPointerUp :: "view \<Rightarrow> view" where
  "onPointerUp st = st\<lparr>v_isPanning := False, v_panStart := None\<rparr>"

definition onLeave :: "view \<Rightarrow> view" where
  "onLeave st = st\<lparr>v_cross := None\<rparr>"

definition fitToScreen :: "view \<Rightarrow> view" where
  "fitToScreen st = st\<lparr>v_domain := None\<rparr>"

section \<open>Properties of the leverage simulator\<close>

lemma length_synth_loop: "length (synth_loop k b prev ps) = length ps"
  by (induction ps arbitrary: b prev) (simp_all add: Let_def)

lemma times_synth_loop: "map time (synth_loop k b prev ps) = map time ps"
  by (induction ps arbitrary: b prev) (simp_all add: Let_def)

lemma synth_loop_step:
  "i < length ps \<Longrightarrow>
   (b # map pvalue (synth_loop k b prev ps)) ! Suc i =
   (b # map pvalue (synth_loop k b prev ps)) ! i *
     (Fin 1 + k * simple_return ((prev # map pvalue ps) ! i) (map pvalue ps ! i))"
proof (induction ps arbitrary: i b prev)
  case Nil
  then show ?case by simp
next
  case (Cons p ps)
  show ?case
  proof (cases i)
    case 0
    then show ?thesis by (simp add: Let_def)
  next
    case (Suc j)
    with Cons.prems have j: "j < length ps" by simp
    show ?thesis using Cons.IH [OF j] Suc by (simp add: Let_def)
  qed
qed


lemma buildSyntheticSeries_values:
  "map pvalue (buildSyntheticSeries (p # ps) k (Number b)) =
   b # map pvalue (synth_loop k b (pvalue p) ps)"
  by (simp add: buildSyntheticSeries_def Let_def)

lemma buildSyntheticSeries_length: "length (buildSyntheticSeries spx k bs) = length spx"
  by (cases spx) (simp_all add: buildSyntheticSeries_def Let_def length_synth_loop)

text \<open>
  C1. For every price series, every leverage (the integers among them) and every base
  of type number, \<open>buildSyntheticSeries\<close> returns a series of the same length with the
  same timestamps; the first output is the base; for \<open>i \<ge> 1\<close> the \<open>i\<close>-th output is the
  previous output times \<open>1 + leverage * r\<close>, where \<open>r\<close> is
  \<open>(price[i] - price[i-1]) / price[i-1]\<close>, or 0 when \<open>price[i-1]\<close> is falsy (zero or
  NaN). Prices 100, 110, 99 with leverage 2 and base 100 give 100, 120, 96, and the
  empty series gives the empty series.
\<close>

theorem buildSyntheticSeries_spec:
  "length (buildSyntheticSeries spx k (Number b)) = length spx
   \<and> map time (buildSyntheticSeries spx k (Number b)) = map time spx
   \<and> (spx \<noteq> [] \<longrightarrow> pvalue (buildSyntheticSeries spx k (Number b) ! 0) = b)
   \<and> (\<forall>i. 1 \<le> i \<and> i < length spx \<longrightarrow>
         pvalue (buildSyntheticSeries spx k (Number b) ! i) =
         pvalue (buildSyntheticSeries spx k (Number b) ! (i - 1)) *
           (Fin 1 + k *
              (if truthy (pvalue (spx ! (i - 1)))
               then (pvalue (spx ! i) - pvalue (spx ! (i - 1))) / pvalue (spx ! (i - 1))
               else Fin 0)))
   \<and> buildSyntheticSeries
         [\<lparr>time = 0, pvalue = Fin 100\<rparr>, \<lparr>time = 1, pvalue = Fin 110\<rparr>,
          \<lparr>time = 2, pvalue = Fin 99\<rparr>] (Fin 2) (Number (Fin 100)) =
         [\<lparr>time = 0, pvalue = Fin 100\<rparr>, \<lparr>time = 1, pvalue = Fin 120\<rparr>,
          \<lparr>time = 2, pvalue = Fin 96\<rparr>]
   \<and> buildSyntheticSeries [] k (Number b) = []"
proof (intro conjI allI impI)
  show "length (buildSyntheticSeries spx k (Number b)) = length spx"
    by (rule buildSyntheticSeries_length)
  show "map time (buildSyntheticSeries spx k (Number b)) = map time spx"
    by (cases spx) (simp_all add: buildSyntheticSeries_def Let_def times_synth_loop)
  show "pvalue (buildSyntheticSeries spx k (Number b) ! 0) = b" if "spx \<noteq> []"
    using that by (cases spx) (simp_all add: buildSyntheticSeries_def Let_def)
  show "buildSyntheticSeries [] k (Number b) = []"
    by (simp add: buildSyntheticSeries_def Let_def)
  show "buildSyntheticSeries
         [\<lparr>time = 0, pvalue = Fin 100\<rparr>, \<lparr>time = 1, pvalue = Fin 110\<rparr>,
          \<lparr>time = 2, pvalue = Fin 99\<rparr>] (Fin 2) (Number (Fin 100)) =
         [\<lparr>time = 0, pvalue = Fin 100\<rparr>, \<lparr>time = 1, pvalue = Fin 120\<rparr>,
          \<lparr>time = 2, pvalue = Fin 96\<rparr>]"
    by (simp add: buildSyntheticSeries_def Let_def simple_return_def minus_jsnum_def)
next
  fix i
  assume i: "1 \<le> i \<and> i < length spx"
  then obtain p ps where spx: "spx = p # ps" by (cases spx) auto
  from i obtain j where j: "i = Suc j" by (cases i) auto
  with i spx have jl: "j < length ps" by simp
  let ?out = "buildSyntheticSeries spx k (Number b)"
  have len: "length ?out = Suc (length ps)"
    by (simp add: buildSyntheticSeries_length spx)
  have "map pvalue ?out ! Suc j =
        map pvalue ?out ! j *
          (Fin 1 + k * simple_return ((pvalue p # map pvalue ps) ! j) (map pvalue ps ! j))"
    unfolding spx buildSyntheticSeries_values by (rule synth_loop_step [OF jl])
  moreover have "map pvalue ?out ! Suc j = pvalue (?out ! Suc j)"
    using jl len by (simp del: nth_Cons_Suc)
  moreover have "map pvalue ?out ! j = pvalue (?out ! j)"
    using jl len by simp
  moreover have "(pvalue p # map pvalue ps) ! j = pvalue (spx ! j)"
    using jl nth_map [of j spx pvalue] by (simp add: spx)
  moreover have "map pvalue ps ! j = pvalue (spx ! Suc j)"
    using jl by (simp add: spx)
  ultimately show "pvalue (?out ! i) =
         pvalue (?out ! (i - 1)) *
           (Fin 1 + k *
              (if truthy (pvalue (spx ! (i - 1)))
               then (pvalue (spx ! i) - pvalue (spx ! (i - 1))) / pvalue (spx ! (i - 1))
               else Fin 0))"
    by (simp add: j simple_return_def)
qed

theorem buildSyntheticSeries_spec_witness:
  "pvalue (buildSyntheticSeries
       [\<lparr>time = 0, pvalue = Fin 100\<rparr>, \<lparr>time = 1, pvalue = Fin 110\<rparr>,
        \<lparr>time = 2, pvalue = Fin 99\<rparr>] (Fin 2) (Number (Fin 100)) ! 0) = Fin 100
   \<and> pvalue (buildSyntheticSeries
       [\<lparr>time = 0, pvalue = Fin 100\<rparr>, \<lparr>time = 1, pvalue = Fin 110\<rparr>,
        \<lparr>time = 2, pvalue = Fin 99\<rparr>] (Fin 2) (Number (Fin 100)) ! 2) =
     pvalue (buildSyntheticSeries
       [\<lparr>time = 0, pvalue = Fin 100\<rparr>, \<lparr>time = 1, pvalue = Fin 110\<rparr>,
        \<lparr>time = 2, pvalue = Fin 99\<rparr>] (Fin 2) (Number (Fin 100)) ! 1) *
       (Fin 1 + Fin 2 * ((Fin 99 - Fin 110) / Fin 110))"
proof -
  let ?spx = "[\<lparr>time = 0, pvalue = Fin 100\<rparr>, \<lparr>time = 1, pvalue = Fin 110\<rparr>,
        \<lparr>time = 2, pvalue = Fin 99\<rparr>]"
  note t = buildSyntheticSeries_spec [of ?spx "Fin 2" "Fin 100"]
  have ne: "?spx \<noteq> []" by simp
  have i: "1 \<le> (2::nat) \<and> 2 < length ?spx" by simp
  from t ne have a: "pvalue (buildSyntheticSeries ?spx (Fin 2) (Number (Fin 100)) ! 0) = Fin 100"
    by blast
  from t have "\<forall>i. 1 \<le> i \<and> i < length ?spx \<longrightarrow>
         pvalue (buildSyntheticSeries ?spx (Fin 2) (Number (Fin 100)) ! i) =
         pvalue (buildSyntheticSeries ?spx (Fin 2) (Number (Fin 100)) ! (i - 1)) *
           (Fin 1 + Fin 2 *
              (if truthy (pvalue (?spx ! (i - 1)))
               then (pvalue (?spx ! i) - pvalue (?spx ! (i - 1))) / pvalue (?spx ! (i - 1))
               else Fin 0))"
    by blast
  from this [rule_format, OF i]
  have b: "pvalue (buildSyntheticSeries ?spx (Fin 2) (Number (Fin 100)) ! 2) =
     pvalue (buildSyntheticSeries ?spx (Fin 2) (Number (Fin 100)) ! 1) *
       (Fin 1 + Fin 2 * ((Fin 99 - Fin 110) / Fin 110))"
    by simp
  from a b show ?thesis by blast
qed

text \<open>
  C7 (as amended). A base that is not of type number is replaced by 100, not by 0: for
  every non-empty series the first output is 100.
\<close>

theorem buildSyntheticSeries_default_base:
  "spx \<noteq> [] \<Longrightarrow> pvalue (buildSyntheticSeries spx k NotNumber ! 0) = Fin 100"
  by (cases spx) (simp_all add: buildSyntheticSeries_def Let_def)

theorem buildSyntheticSeries_default_base_witness:
  "[\<lparr>time = 0, pvalue = Fin 4500\<rparr>] \<noteq> []
   \<and> pvalue (buildSyntheticSeries [\<lparr>time = 0, pvalue = Fin 4500\<rparr>] (Fin 2) NotNumber ! 0) = Fin 100"
  using buildSyntheticSeries_default_base [of "[\<lparr>time = 0, pvalue = Fin 4500\<rparr>]" "Fin 2"]
  by simp

text \<open>
  C7 as stated fails: with a base that is not a number the first output is not 0.
\<close>

theorem buildSyntheticSeries_base_not_zero:
  "pvalue (buildSyntheticSeries [\<lparr>time = 0, pvalue = Fin 4500\<rparr>] (Fin 2) NotNumber ! 0) \<noteq> Fin 0"
  by (simp add: buildSyntheticSeries_def Let_def)

section \<open>Properties of the proxy\<close>

lemma proxy_series_from:
  "filter (\<lambda>p. Number_isFinite (pvalue p))
     (map_indexed (\<lambda>t i. \<lparr>time = t * 1000, pvalue = js_index cl i\<rparr>) n ts) =
   map (\<lambda>(t, c). \<lparr>time = t * 1000, pvalue = c\<rparr>)
     (filter (\<lambda>(t, c). Number_isFinite c) (zip ts (drop n cl)))"
proof (induction ts arbitrary: n)
  case Nil
  then show ?case by simp
next
  case (Cons t ts)
  show ?case
  proof (cases "n < length cl")
    case True
    then have d: "drop n cl = cl ! n # drop (Suc n) cl"
      by (simp add: Cons_nth_drop_Suc)
    show ?thesis using True Cons.IH [of "Suc n"] by (simp add: d js_index_def)
  next
    case False
    then show ?thesis using Cons.IH [of "Suc n"] by (simp add: js_index_def)
  qed
qed

text \<open>
  C9. For an upstream answer that holds the two arrays, the proxy replies with the
  series that pairs each timestamp times 1000 with the close of the same index, in the
  original order, without the pairs whose close is not a finite number. Timestamps
  1000, 2000 with closes 50, NaN give the single point (1000000, 50).
\<close>

theorem handler_series:
  "(200 \<le> status \<and> status \<le> 299 \<longrightarrow>
     handler (Upstream status (Some \<lparr>timestamp = Some ts, close = Some cl\<rparr>)) =
     Success (map (\<lambda>(t, c). \<lparr>time = t * 1000, pvalue = c\<rparr>)
               (filter (\<lambda>(t, c). Number_isFinite c) (zip ts cl))))
   \<and> handler (Upstream 200
         (Some \<lparr>timestamp = Some [1000, 2000],
                close = Some [Number (Fin 50), Number NaN]\<rparr>)) =
     Success [\<lparr>time = 1000000, pvalue = Number (Fin 50)\<rparr>]"
proof
  show "200 \<le> status \<and> status \<le> 299 \<longrightarrow>
     handler (Upstream status (Some \<lparr>timestamp = Some ts, close = Some cl\<rparr>)) =
     Success (map (\<lambda>(t, c). \<lparr>time = t * 1000, pvalue = c\<rparr>)
               (filter (\<lambda>(t, c). Number_isFinite c) (zip ts cl)))"
    using proxy_series_from [of cl 0 ts] by (simp add: handler_def proxy_series_def)
  show "handler (Upstream 200
         (Some \<lparr>timestamp = Some [1000, 2000],
                close = Some [Number (Fin 50), Number NaN]\<rparr>)) =
     Success [\<lparr>time = 1000000, pvalue = Number (Fin 50)\<rparr>]"
    by (simp add: handler_def proxy_series_def js_index_def)
qed

theorem handler_series_witness:
  "handler (Upstream 206
      (Some \<lparr>timestamp = Some [1000, 2000, 3000],
             close = Some [Number (Fin 50), NotNumber, Number (Fin 70)]\<rparr>)) =
   Success [\<lparr>time = 1000000, pvalue = Number (Fin 50)\<rparr>,
            \<lparr>time = 3000000, pvalue = Number (Fin 70)\<rparr>]"
  using handler_series [of 206 "[1000, 2000, 3000]"
      "[Number (Fin 50), NotNumber, Number (Fin 70)]"]
  by simp

section \<open>Properties of dates and of the alignment\<close>

lemma div_step: "0 < k \<Longrightarrow> (x + 1) div k = x div k + (if (x + 1) mod k = 0 then 1 else (0::int))"
proof -
  assume k: "0 < k"
  let ?q = "x div k" and ?r = "x mod k"
  have x: "x = k * ?q + ?r" by simp
  have r: "0 \<le> ?r" "?r < k" using k by simp_all
  show ?thesis
  proof (cases "?r + 1 = k")
    case True
    have "k * (?q + 1) + 0 = k * ?q + (?r + 1)" using True by (simp add: algebra_simps)
    also have "\<dots> = x + 1" by simp
    finally have e: "x + 1 = k * (?q + 1) + 0" by simp
    have "(x + 1) div k = ?q + 1" by (rule int_div_pos_eq [OF e]) (use k in simp_all)
    moreover have "(x + 1) mod k = 0" by (rule int_mod_pos_eq [OF e]) (use k in simp_all)
    ultimately show ?thesis by simp
  next
    case False
    have e: "x + 1 = k * ?q + (?r + 1)" by simp
    have b: "0 \<le> ?r + 1" "?r + 1 < k" using r False by simp_all
    have "(x + 1) div k = ?q" by (rule int_div_pos_eq [OF e b])
    moreover have "(x + 1) mod k = ?r + 1" by (rule int_mod_pos_eq [OF e b])
    ultimately show ?thesis using r by simp
  qed
qed

lemma mod_shift: "(y + k * c) mod k = (y::int) mod k"
  by simp

lemma m4: "((y - 1968) mod 4 = 0) = ((y::int) mod 4 = 0)"
  using mod_shift [of y 4 "- 492"] by simp

lemma m100: "((y - 1900) mod 100 = 0) = ((y::int) mod 100 = 0)"
  using mod_shift [of y 100 "- 19"] by simp

lemma m400: "((y - 1600) mod 400 = 0) = ((y::int) mod 400 = 0)"
  using mod_shift [of y 400 "- 4"] by simp

lemma d4: "(y::int) mod 100 = 0 \<Longrightarrow> y mod 4 = 0"
  using mod_mod_cancel [of 4 100 y] by simp

lemma d100: "(y::int) mod 400 = 0 \<Longrightarrow> y mod 100 = 0"
  using mod_mod_cancel [of 100 400 y] by simp

lemma DayFromYear_step: "DayFromYear (y + 1) = DayFromYear y + DaysInYear y"
proof -
  have a: "(y + 1 - 1969) div 4 = (y - 1969) div 4 + (if y mod 4 = 0 then 1 else 0)"
    using div_step [of 4 "y - 1969"] m4 [of y] by (simp add: algebra_simps)
  have b: "(y + 1 - 1901) div 100 = (y - 1901) div 100 + (if y mod 100 = 0 then 1 else 0)"
    using div_step [of 100 "y - 1901"] m100 [of y] by (simp add: algebra_simps)
  have c: "(y + 1 - 1601) div 400 = (y - 1601) div 400 + (if y mod 400 = 0 then 1 else 0)"
    using div_step [of 400 "y - 1601"] m400 [of y] by (simp add: algebra_simps)
  show ?thesis
    unfolding DayFromYear_def DaysInYear_def a b c
    using d4 [of y] d100 [of y] by auto
qed

lemma DaysInYear_pos: "0 < DaysInYear y"
  by (simp add: DaysInYear_def)

lemma DayFromYear_less: "y < y' \<Longrightarrow> DayFromYear y < DayFromYear y'"
proof (induction y' rule: int_gr_induct)
  case base
  then show ?case using DayFromYear_step [of y] DaysInYear_pos [of y] by simp
next
  case (step i)
  then show ?case using DayFromYear_step [of i] DaysInYear_pos [of i] by simp
qed

lemma DayFromYear_mono: "y \<le> y' \<Longrightarrow> DayFromYear y \<le> DayFromYear y'"
  using DayFromYear_less [of y y'] by (cases "y = y'") auto

lemma div_bounds: "0 < k \<Longrightarrow> k * (x div k) \<le> x \<and> x < k * (x div k) + (k::int)"
proof -
  assume k: "0 < k"
  have "k * (x div k) + x mod k = x" by simp
  moreover have "0 \<le> x mod k" "x mod k < k" using k by simp_all
  ultimately show ?thesis by linarith
qed

lemma year_estimate_low:
  assumes "146097 * q \<le> 400 * d"
  shows "DayFromYear (1970 + q - 1) \<le> d"
proof -
  have "4 * (q div 4) \<le> q" using div_bounds [of 4 q] by simp
  moreover have "q + 68 < 100 * ((q + 68) div 100) + 100" using div_bounds [of 100 "q + 68"] by simp
  moreover have "400 * ((q + 368) div 400) \<le> q + 368" using div_bounds [of 400 "q + 368"] by simp
  ultimately show ?thesis using assms unfolding DayFromYear_def by (simp add: algebra_simps)
qed

lemma year_estimate_high:
  assumes "400 * d < 146097 * q + 146097"
  shows "d < DayFromYear (1970 + q + 2)"
proof -
  have "q + 3 < 4 * ((q + 3) div 4) + 4" using div_bounds [of 4 "q + 3"] by simp
  moreover have "100 * ((q + 71) div 100) \<le> q + 71" using div_bounds [of 100 "q + 71"] by simp
  moreover have "q + 371 < 400 * ((q + 371) div 400) + 400" using div_bounds [of 400 "q + 371"] by simp
  ultimately show ?thesis using assms unfolding DayFromYear_def by (simp add: algebra_simps)
qed

lemma YearFromTime_bracket:
  "DayFromYear (YearFromTime t) \<le> Day t \<and> Day t < DayFromYear (YearFromTime t + 1)"
proof -
  let ?d = "Day t"
  let ?q = "(400 * ?d) div 146097"
  have q: "146097 * ?q \<le> 400 * ?d" "400 * ?d < 146097 * ?q + 146097"
    using div_bounds [of 146097 "400 * ?d"] by simp_all
  have lo: "DayFromYear (1970 + ?q - 1) \<le> ?d" by (rule year_estimate_low [OF q(1)])
  have hi: "?d < DayFromYear (1970 + ?q + 2)" by (rule year_estimate_high [OF q(2)])
  show ?thesis using lo hi
    by (simp add: YearFromTime_def Let_def algebra_simps)
qed

lemma YearFromTime_unique:
  assumes "DayFromYear y \<le> Day t" and "Day t < DayFromYear (y + 1)"
  shows "YearFromTime t = y"
proof (rule ccontr)
  assume ne: "YearFromTime t \<noteq> y"
  note b = YearFromTime_bracket [of t]
  show False
  proof (cases "YearFromTime t < y")
    case True
    then have "DayFromYear (YearFromTime t + 1) \<le> DayFromYear y"
      by (intro DayFromYear_mono) simp
    with b assms show False by linarith
  next
    case False
    with ne have "DayFromYear (y + 1) \<le> DayFromYear (YearFromTime t)"
      by (intro DayFromYear_mono) simp
    with b assms show False by linarith
  qed
qed

lemma Day_le_iff: "(a * msPerDay \<le> t) = (a \<le> Day t)"
proof -
  have b: "msPerDay * (t div msPerDay) \<le> t \<and> t < msPerDay * (t div msPerDay) + msPerDay"
    by (rule div_bounds) (simp add: msPerDay_def)
  have p: "0 < msPerDay" by (simp add: msPerDay_def)
  show ?thesis
  proof
    assume "a * msPerDay \<le> t"
    with b have "a * msPerDay < (t div msPerDay + 1) * msPerDay" by (simp add: algebra_simps)
    with p have "a < t div msPerDay + 1" by (simp add: mult_less_cancel_right)
    then show "a \<le> Day t" by (simp add: Day_def)
  next
    assume "a \<le> Day t"
    with p have "msPerDay * a \<le> msPerDay * (t div msPerDay)"
      by (simp add: Day_def mult_left_mono)
    with b have "msPerDay * a \<le> t" by linarith
    then show "a * msPerDay \<le> t" by (simp add: mult.commute)
  qed
qed

lemma YearFromTime_greatest:
  "DayFromYear (YearFromTime t) * msPerDay \<le> t
   \<and> (\<forall>y. DayFromYear y * msPerDay \<le> t \<longrightarrow> y \<le> YearFromTime t)"
proof (intro conjI allI impI)
  show "DayFromYear (YearFromTime t) * msPerDay \<le> t"
    using YearFromTime_bracket [of t] by (simp add: Day_le_iff)
next
  fix y
  assume "DayFromYear y * msPerDay \<le> t"
  then have le: "DayFromYear y \<le> Day t" by (simp add: Day_le_iff)
  show "y \<le> YearFromTime t"
  proof (rule ccontr)
    assume "\<not> y \<le> YearFromTime t"
    then have "DayFromYear (YearFromTime t + 1) \<le> DayFromYear y"
      by (intro DayFromYear_mono) simp
    with le YearFromTime_bracket [of t] show False by linarith
  qed
qed

lemma DayWithinYear_bounds:
  "0 \<le> DayWithinYear t \<and> DayWithinYear t < 365 + InLeapYear t"
  using YearFromTime_bracket [of t] DayFromYear_step [of "YearFromTime t"]
  by (auto simp: DayWithinYear_def InLeapYear_def DaysInYear_def split: if_splits)

lemma MonthFromTime_range: "0 \<le> MonthFromTime t \<and> MonthFromTime t \<le> 11"
  by (simp add: MonthFromTime_def Let_def)

lemma DateFromTime_eq:
  "DateFromTime t = DayWithinYear t - MonthStart (MonthFromTime t) (InLeapYear t) + 1"
  by (simp add: DateFromTime_def MonthStart_def MonthFromTime_def Let_def)

lemma MakeDay_current:
  "MakeDay (YearFromTime t) (MonthFromTime t) dt = Day t - DateFromTime t + dt"
proof -
  have m: "MonthFromTime t div 12 = 0" "MonthFromTime t mod 12 = MonthFromTime t"
    using MonthFromTime_range [of t] by simp_all
  show ?thesis
    unfolding MakeDay_def Let_def m DateFromTime_eq
    by (simp add: InLeapYear_def DayWithinYear_def)
qed

lemma month_cases:
  assumes "0 \<le> (m::int)" "m \<le> 11"
  shows "m = 0 \<or> m = 1 \<or> m = 2 \<or> m = 3 \<or> m = 4 \<or> m = 5 \<or> m = 6 \<or> m = 7
         \<or> m = 8 \<or> m = 9 \<or> m = 10 \<or> m = 11"
  using assms by arith

lemma month_of_start:
  assumes "0 \<le> mn" "mn \<le> 11" and "DayWithinYear r = MonthStart mn (InLeapYear r)"
  shows "MonthFromTime r = mn \<and> DateFromTime r = 1"
proof -
  have l: "InLeapYear r = 0 \<or> InLeapYear r = 1" by (simp add: InLeapYear_def)
  from month_cases [OF assms(1,2)] l assms(3) show ?thesis
    by (elim disjE) (simp_all add: MonthFromTime_def DateFromTime_def MonthStart_def Let_def)
qed

lemma MonthStart_le: "MonthStart (MonthFromTime t) (InLeapYear t) \<le> DayWithinYear t"
  using DayWithinYear_bounds [of t]
  by (simp add: MonthStart_def MonthFromTime_def Let_def)

lemma MonthStart_bounds:
  assumes "0 \<le> mn" "mn \<le> 11" "l = 0 \<or> l = 1"
  shows "0 \<le> MonthStart mn l \<and> MonthStart mn l < 365 + l"
  using month_cases [OF assms(1,2)] assms(3) by (auto simp: MonthStart_def)

lemma year_of_day:
  assumes "DayFromYear y \<le> Day r" "Day r < DayFromYear y + DaysInYear y"
  shows "YearFromTime r = y"
  using assms DayFromYear_step [of y] by (intro YearFromTime_unique) simp_all

lemma MakeDay_first:
  assumes "0 \<le> mn" "mn \<le> 11" and "Day t = MakeDay y mn 1"
  shows "YearFromTime t = y \<and> MonthFromTime t = mn \<and> DateFromTime t = 1"
proof -
  let ?l = "if DaysInYear y = 366 then 1 else 0 :: int"
  have mn: "mn div 12 = 0" "mn mod 12 = mn" using assms(1,2) by simp_all
  have d: "Day t = DayFromYear y + MonthStart mn ?l"
    using assms(3) by (simp add: MakeDay_def Let_def mn)
  have b: "0 \<le> MonthStart mn ?l \<and> MonthStart mn ?l < 365 + ?l"
    by (rule MonthStart_bounds [OF assms(1,2)]) simp
  have dy: "DaysInYear y = 365 + ?l" by (simp add: DaysInYear_def)
  have y: "YearFromTime t = y"
    by (rule year_of_day) (use d b dy in simp_all)
  have "DayWithinYear t = MonthStart mn (InLeapYear t)"
    using d y by (simp add: DayWithinYear_def InLeapYear_def)
  from month_of_start [OF assms(1,2) this] y show ?thesis by simp
qed

lemma first_of_month:
  assumes "Day r = Day t - DateFromTime t + 1"
  shows "YearFromTime r = YearFromTime t \<and> MonthFromTime r = MonthFromTime t
         \<and> DateFromTime r = 1"
proof -
  have "Day r = MakeDay (YearFromTime t) (MonthFromTime t) 1"
    using assms by (simp add: MakeDay_current)
  from MakeDay_first [OF _ _ this] MonthFromTime_range [of t] show ?thesis by simp
qed

lemma TimeClip_Some: "(TimeClip t = Some r) = (r = t \<and> \<bar>t\<bar> \<le> maxTime)"
  by (auto simp: TimeClip_def)

lemma Day_MakeDate:
  assumes "0 \<le> tm" "tm < msPerDay"
  shows "Day (MakeDate d tm) = d \<and> TimeWithinDay (MakeDate d tm) = tm"
proof -
  have e: "MakeDate d tm = msPerDay * d + tm" by (simp add: MakeDate_def)
  have "MakeDate d tm div msPerDay = d" by (rule int_div_pos_eq [OF e assms])
  moreover have "MakeDate d tm mod msPerDay = tm" by (rule int_mod_pos_eq [OF e assms])
  ultimately show ?thesis by (simp add: Day_def TimeWithinDay_def)
qed

lemma TimeWithinDay_bounds: "0 \<le> TimeWithinDay t \<and> TimeWithinDay t < msPerDay"
  by (simp add: TimeWithinDay_def msPerDay_def)

lemma Day_start_le: "Day t * msPerDay \<le> t"
  by (simp add: Day_le_iff)

lemma valid_Day: "- maxTime \<le> t \<Longrightarrow> - 100000000 \<le> Day t"
  using Day_le_iff [of "- 100000000" t] by (simp add: msPerDay_def maxTime_def)

lemma valid_from_day:
  assumes "- 100000000 \<le> d" "0 \<le> tm" "MakeDate d tm \<le> t" "\<bar>t\<bar> \<le> maxTime"
  shows "\<bar>MakeDate d tm\<bar> \<le> maxTime"
proof -
  have "- 100000000 * msPerDay \<le> d * msPerDay"
    using assms(1) by (intro mult_right_mono) (simp_all add: msPerDay_def)
  then have "- maxTime \<le> MakeDate d tm"
    using assms(2) by (simp add: MakeDate_def msPerDay_def maxTime_def)
  with assms(3,4) show ?thesis by linarith
qed

lemma setUTCHours_zero: "setUTCHours t 0 0 0 0 = TimeClip (MakeDate (Day t) 0)"
  by (simp add: setUTCHours_def MakeTime_def)

lemma day_start:
  assumes "\<bar>t\<bar> \<le> maxTime" and "r = MakeDate (Day t) 0"
  shows "\<bar>r\<bar> \<le> maxTime \<and> Day r = Day t \<and> TimeWithinDay r = 0"
proof -
  have "MakeDate (Day t) 0 \<le> t" using Day_start_le [of t] by (simp add: MakeDate_def)
  then have "\<bar>MakeDate (Day t) 0\<bar> \<le> maxTime"
    using assms(1) valid_Day [of t] by (intro valid_from_day [of _ _ t]) simp_all
  moreover have "Day (MakeDate (Day t) 0) = Day t \<and> TimeWithinDay (MakeDate (Day t) 0) = 0"
    by (rule Day_MakeDate) (simp_all add: msPerDay_def)
  ultimately show ?thesis using assms(2) by simp
qed

lemma setUTCHours_idem:
  assumes "\<bar>t\<bar> \<le> maxTime" and "setUTCHours t 0 0 0 0 = Some r"
  shows "\<bar>r\<bar> \<le> maxTime \<and> Day r = Day t \<and> TimeWithinDay r = 0
         \<and> setUTCHours r 0 0 0 0 = Some r"
proof -
  from assms(2) have r: "r = MakeDate (Day t) 0"
    by (simp add: setUTCHours_zero TimeClip_Some)
  note d = day_start [OF assms(1) r]
  then have "setUTCHours r 0 0 0 0 = Some r"
    using r by (simp add: setUTCHours_zero TimeClip_Some)
  with d show ?thesis by simp
qed

lemma setUTCDate_eq:
  "setUTCDate t dt = TimeClip (MakeDate (Day t - DateFromTime t + dt) (TimeWithinDay t))"
  by (simp add: setUTCDate_def MakeDay_current)

lemma setUTCDate_Some:
  assumes "setUTCDate t dt = Some t1"
  shows "\<bar>t1\<bar> \<le> maxTime \<and> Day t1 = Day t - DateFromTime t + dt
         \<and> TimeWithinDay t1 = TimeWithinDay t"
  using assms Day_MakeDate [of "TimeWithinDay t" "Day t - DateFromTime t + dt"]
    TimeWithinDay_bounds [of t]
  by (auto simp: setUTCDate_eq TimeClip_Some)

lemma time_of_day: "t = MakeDate (Day t) (TimeWithinDay t)"
  by (simp add: MakeDate_def Day_def TimeWithinDay_def)

lemma setUTCDate_same:
  assumes "\<bar>r\<bar> \<le> maxTime"
  shows "setUTCDate r (DateFromTime r) = Some r"
  using assms time_of_day [of r] by (simp add: setUTCDate_eq TimeClip_Some)

lemma bind_Some: "(Option.bind a f = Some r) = (\<exists>x. a = Some x \<and> f x = Some r)"
  by (cases a) simp_all

lemma same_Day:
  assumes "Day r = Day t"
  shows "YearFromTime r = YearFromTime t" "MonthFromTime r = MonthFromTime t"
    "DateFromTime r = DateFromTime t" "WeekDay r = WeekDay t"
proof -
  show y: "YearFromTime r = YearFromTime t" using assms by (simp add: YearFromTime_def)
  have l: "InLeapYear r = InLeapYear t" using y by (simp add: InLeapYear_def)
  have d: "DayWithinYear r = DayWithinYear t" using y assms by (simp add: DayWithinYear_def)
  show m: "MonthFromTime r = MonthFromTime t" using l d by (simp add: MonthFromTime_def)
  show "DateFromTime r = DateFromTime t" using l d m by (simp add: DateFromTime_def)
  show "WeekDay r = WeekDay t" using assms by (simp add: WeekDay_def)
qed

lemma align_month_idem:
  assumes "\<bar>t\<bar> \<le> maxTime" and "align_date t ''M'' = Some r"
  shows "\<bar>r\<bar> \<le> maxTime \<and> align_date r ''M'' = Some r"
proof -
  from assms(2) obtain t1 where t1: "setUTCDate t 1 = Some t1"
    and r: "setUTCHours t1 0 0 0 0 = Some r"
    by (auto simp: align_date_def bind_Some)
  note a = setUTCDate_Some [OF t1]
  note b = setUTCHours_idem [OF _ r]
  from a b have v: "\<bar>r\<bar> \<le> maxTime" and d: "Day r = Day t - DateFromTime t + 1"
    and h: "setUTCHours r 0 0 0 0 = Some r" by simp_all
  from first_of_month [OF d] have "DateFromTime r = 1" by simp
  with setUTCDate_same [OF v] have "setUTCDate r 1 = Some r" by simp
  with h v show ?thesis by (simp add: align_date_def)
qed

lemma monday: "((d::int) - ((d + 4) mod 7 + 6) mod 7 + 4) mod 7 = 1"
  by presburger

lemma align_week_idem:
  assumes "\<bar>t\<bar> \<le> maxTime" and "align_date t ''W'' = Some r"
  shows "\<bar>r\<bar> \<le> maxTime \<and> align_date r ''W'' = Some r"
proof -
  let ?diff = "(WeekDay t + 6) mod 7"
  from assms(2) obtain t1 where t1: "setUTCDate t (DateFromTime t - ?diff) = Some t1"
    and r: "setUTCHours t1 0 0 0 0 = Some r"
    by (auto simp: align_date_def bind_Some Let_def)
  note a = setUTCDate_Some [OF t1]
  note b = setUTCHours_idem [OF _ r]
  from a b have v: "\<bar>r\<bar> \<le> maxTime" and d: "Day r = Day t - ?diff"
    and h: "setUTCHours r 0 0 0 0 = Some r" by simp_all
  have "WeekDay r = 1" using monday [of "Day t"] by (simp add: WeekDay_def d)
  then have "(WeekDay r + 6) mod 7 = 0" by simp
  with setUTCDate_same [OF v] h v show ?thesis by (simp add: align_date_def)
qed

lemma align_day_idem:
  assumes "\<bar>t\<bar> \<le> maxTime" and "align_date t ''D'' = Some r"
  shows "\<bar>r\<bar> \<le> maxTime \<and> align_date r ''D'' = Some r"
  using setUTCHours_idem [OF assms(1), of r] assms(2) by (simp add: align_date_def)

lemma components:
  assumes "0 \<le> h" "h < 24" "0 \<le> m" "m < 60"
  shows "Day (MakeDate d (MakeTime h m 0 0)) = d
         \<and> HourFromTime (MakeDate d (MakeTime h m 0 0)) = h
         \<and> MinFromTime (MakeDate d (MakeTime h m 0 0)) = m"
proof -
  let ?r = "MakeDate d (MakeTime h m 0 0)"
  have e1: "?r = 86400000 * d + (h * 3600000 + m * 60000)"
    by (simp add: MakeDate_def MakeTime_def msPerDay_def msPerHour_def msPerMinute_def)
  have e2: "?r = 3600000 * (d * 24 + h) + m * 60000"
    by (simp add: MakeDate_def MakeTime_def msPerDay_def msPerHour_def msPerMinute_def)
  have e3: "?r = 60000 * (d * 1440 + h * 60 + m) + 0"
    by (simp add: MakeDate_def MakeTime_def msPerDay_def msPerHour_def msPerMinute_def)
  have "?r div 86400000 = d" by (rule int_div_pos_eq [OF e1]) (use assms in simp_all)
  moreover have "?r div 3600000 = d * 24 + h"
    by (rule int_div_pos_eq [OF e2]) (use assms in simp_all)
  moreover have "?r div 60000 = d * 1440 + h * 60 + m"
    by (rule int_div_pos_eq [OF e3]) simp_all
  moreover have "(d * 24 + h) mod 24 = h" using assms(1,2) by simp
  moreover have "(d * 1440 + h * 60 + m) mod 60 = m"
  proof -
    have "d * 1440 + h * 60 + m = 60 * (d * 24 + h) + m" by simp
    then show ?thesis by (rule int_mod_pos_eq) (use assms in simp_all)
  qed
  ultimately show ?thesis
    by (simp add: Day_def HourFromTime_def MinFromTime_def msPerDay_def msPerHour_def
        msPerMinute_def)
qed

lemma HourFromTime_range: "0 \<le> HourFromTime t \<and> HourFromTime t < 24"
  by (simp add: HourFromTime_def)

lemma MinFromTime_range: "0 \<le> MinFromTime t \<and> MinFromTime t < 60"
  by (simp add: MinFromTime_def)

lemma time_decomp:
  "t = MakeDate (Day t) (MakeTime (HourFromTime t) (MinFromTime t) 0 0) + t mod msPerMinute"
proof -
  let ?q = "t div 60000" and ?p = "t div 3600000"
  have 1: "t = 60000 * ?q + t mod 60000" by simp
  have "?q div 60 = ?p" using zdiv_zmult2_eq [of 60 t 60000] by simp
  then have 2: "?q = 60 * ?p + ?q mod 60" using mult_div_mod_eq [of 60 ?q] by simp
  have "?p div 24 = t div 86400000" using zdiv_zmult2_eq [of 24 t 3600000] by simp
  then have 3: "?p = 24 * (t div 86400000) + ?p mod 24" using mult_div_mod_eq [of 24 ?p] by simp
  have "t = 86400000 * (t div 86400000) + 3600000 * (?p mod 24) + 60000 * (?q mod 60)
          + t mod 60000"
    using 1 2 3 by linarith
  then show ?thesis
    by (simp add: MakeDate_def MakeTime_def Day_def HourFromTime_def MinFromTime_def
        msPerDay_def msPerHour_def msPerMinute_def algebra_simps)
qed

lemma bucket:
  assumes "\<bar>t\<bar> \<le> maxTime" and "0 \<le> m" "m \<le> MinFromTime t"
    and "r = MakeDate (Day t) (MakeTime (HourFromTime t) m 0 0)"
  shows "\<bar>r\<bar> \<le> maxTime \<and> Day r = Day t \<and> HourFromTime r = HourFromTime t
         \<and> MinFromTime r = m"
proof -
  have m60: "m < 60" using assms(3) MinFromTime_range [of t] by simp
  have "0 \<le> t mod msPerMinute" by (simp add: msPerMinute_def)
  moreover have "MakeTime (HourFromTime t) m 0 0 \<le> MakeTime (HourFromTime t) (MinFromTime t) 0 0"
    using assms(3) by (simp add: MakeTime_def msPerMinute_def)
  ultimately have le: "MakeDate (Day t) (MakeTime (HourFromTime t) m 0 0) \<le> t"
    using time_decomp [of t] by (simp add: MakeDate_def)
  have "0 \<le> MakeTime (HourFromTime t) m 0 0"
    using assms(2) HourFromTime_range [of t]
    by (simp add: MakeTime_def msPerHour_def msPerMinute_def)
  then have "\<bar>MakeDate (Day t) (MakeTime (HourFromTime t) m 0 0)\<bar> \<le> maxTime"
    using le assms(1) valid_Day [of t] by (intro valid_from_day [of _ _ t]) simp_all
  then show ?thesis
    using components [of "HourFromTime t" m "Day t"] HourFromTime_range [of t] assms(2) m60
    by (simp add: assms(4))
qed

lemma setUTCMinutes_idem:
  assumes "\<bar>t\<bar> \<le> maxTime" and "0 \<le> m" "m \<le> MinFromTime t"
    and "setUTCMinutes t m 0 0 = Some r"
  shows "\<bar>r\<bar> \<le> maxTime \<and> MinFromTime r = m \<and> setUTCMinutes r m 0 0 = Some r"
proof -
  from assms(4) have r: "r = MakeDate (Day t) (MakeTime (HourFromTime t) m 0 0)"
    by (simp add: setUTCMinutes_def TimeClip_Some)
  note b = bucket [OF assms(1-3) r]
  then have "setUTCMinutes r m 0 0 = Some r"
    using r by (simp add: setUTCMinutes_def TimeClip_Some)
  with b show ?thesis by simp
qed

lemma floor_bucket: "0 < k \<Longrightarrow> 0 \<le> (m::int) \<Longrightarrow>
    0 \<le> m div k * k \<and> m div k * k \<le> m \<and> (m div k * k) div k * k = m div k * k"
  using div_bounds [of k m] by (simp add: mult.commute pos_imp_zdiv_nonneg_iff)

lemma align_minutes_idem:
  assumes "\<bar>t\<bar> \<le> maxTime"
    and "interval = ''60'' \<or> interval = ''15'' \<or> interval = ''5'' \<or> interval = ''1''"
    and "align_date t interval = Some r"
  shows "\<bar>r\<bar> \<le> maxTime \<and> align_date r interval = Some r"
proof -
  note mr = MinFromTime_range [of t]
  consider "interval = ''60''" | "interval = ''15''" | "interval = ''5''" | "interval = ''1''"
    using assms(2) by blast
  then show ?thesis
  proof cases
    case 1
    with assms(3) have "setUTCMinutes t 0 0 0 = Some r" by (simp add: align_date_def)
    from setUTCMinutes_idem [OF assms(1) _ _ this] mr show ?thesis
      by (simp add: align_date_def 1)
  next
    case 2
    with assms(3) have s: "setUTCMinutes t (MinFromTime t div 15 * 15) 0 0 = Some r"
      by (simp add: align_date_def)
    have f: "0 \<le> MinFromTime t div 15 * 15 \<and> MinFromTime t div 15 * 15 \<le> MinFromTime t
      \<and> (MinFromTime t div 15 * 15) div 15 * 15 = MinFromTime t div 15 * 15"
      by (rule floor_bucket) (use mr in simp_all)
    from setUTCMinutes_idem [OF assms(1) _ _ s] f show ?thesis
      by (simp add: align_date_def 2)
  next
    case 3
    with assms(3) have s: "setUTCMinutes t (MinFromTime t div 5 * 5) 0 0 = Some r"
      by (simp add: align_date_def)
    have f: "0 \<le> MinFromTime t div 5 * 5 \<and> MinFromTime t div 5 * 5 \<le> MinFromTime t
      \<and> (MinFromTime t div 5 * 5) div 5 * 5 = MinFromTime t div 5 * 5"
      by (rule floor_bucket) (use mr in simp_all)
    from setUTCMinutes_idem [OF assms(1) _ _ s] f show ?thesis
      by (simp add: align_date_def 3)
  next
    case 4
    with assms(3) have "r = MakeDate (Day t) (MakeTime (HourFromTime t) (MinFromTime t) 0 0)"
      by (simp add: align_date_def setUTCSeconds_def TimeClip_Some)
    from bucket [OF assms(1) _ _ this] mr show ?thesis
      by (simp add: align_date_def 4 setUTCSeconds_def TimeClip_Some \<open>r = _\<close>)
  qed
qed

lemma align_date_idem:
  assumes "\<bar>t\<bar> \<le> maxTime" and "align_date t interval = Some r"
  shows "\<bar>r\<bar> \<le> maxTime \<and> align_date r interval = Some r"
proof -
  consider "interval = ''M''" | "interval = ''W''" | "interval = ''D''"
    | "interval = ''60'' \<or> interval = ''15'' \<or> interval = ''5'' \<or> interval = ''1''"
    | "interval \<noteq> ''M''" "interval \<noteq> ''W''" "interval \<noteq> ''D''" "interval \<noteq> ''60''"
      "interval \<noteq> ''15''" "interval \<noteq> ''5''" "interval \<noteq> ''1''"
    by blast
  then show ?thesis
  proof cases
    case 1
    with assms show ?thesis using align_month_idem [of t r] by simp
  next
    case 2
    with assms show ?thesis using align_week_idem [of t r] by simp
  next
    case 3
    with assms show ?thesis using align_day_idem [of t r] by simp
  next
    case 4
    with assms show ?thesis using align_minutes_idem [of t interval r] by simp
  next
    case 5
    with assms show ?thesis by (simp add: align_date_def)
  qed
qed

lemma new_Date_valid:
  assumes "new_Date ts = Some t"
  shows "\<bar>t\<bar> \<le> maxTime"
proof (cases ts)
  case (Fin x)
  with assms have b: "\<bar>x\<bar> \<le> real_of_int maxTime"
    and t: "t = (if 0 \<le> x then \<lfloor>x\<rfloor> else \<lceil>x\<rceil>)"
    by (auto split: if_splits)
  show ?thesis
  proof (cases "0 \<le> x")
    case True
    then have "0 \<le> \<lfloor>x\<rfloor>" by simp
    moreover have "\<lfloor>x\<rfloor> \<le> maxTime" using b True by (simp add: floor_le_iff)
    ultimately show ?thesis using t True by simp
  next
    case False
    then have "\<lceil>x\<rceil> \<le> 0" by (simp add: ceiling_le_iff)
    moreover have "- maxTime \<le> \<lceil>x\<rceil>" using b False by (simp add: le_ceiling_iff)
    ultimately show ?thesis using t False by simp
  qed
qed (use assms in simp_all)

lemma new_Date_getTime:
  assumes "\<bar>t\<bar> \<le> maxTime"
  shows "new_Date (getTime (Some t)) = Some t"
proof -
  have "\<bar>real_of_int t\<bar> \<le> real_of_int maxTime"
    using assms by (metis of_int_abs of_int_le_iff)
  then show ?thesis by simp
qed

lemma alignToInterval_idem:
  "alignToInterval (alignToInterval ts interval) interval = alignToInterval ts interval"
proof (cases "Option.bind (new_Date ts) (\<lambda>t. align_date t interval)")
  case None
  then show ?thesis by (simp add: alignToInterval_def)
next
  case (Some r)
  then obtain t where t: "new_Date ts = Some t" and r: "align_date t interval = Some r"
    by (auto simp: bind_Some)
  from align_date_idem [OF new_Date_valid [OF t] r]
  have v: "\<bar>r\<bar> \<le> maxTime" and a: "align_date r interval = Some r" by simp_all
  have "alignToInterval ts interval = getTime (Some r)"
    using Some by (simp add: alignToInterval_def)
  moreover have "alignToInterval (getTime (Some r)) interval = getTime (Some r)"
    unfolding alignToInterval_def new_Date_getTime [OF v] using a by simp
  ultimately show ?thesis by simp
qed

text \<open>
  Checks of the calendar arithmetic at known instants: 2023-11-14T22:13:20.123Z (a
  Tuesday), 1927-12-30T00:00:00.005Z (before 1970), and the month after 2024-01-31,
  which overflows February into 2024-03-02.
\<close>

lemma Date_examples:
  "YearFromTime 1700000000123 = 2023 \<and> MonthFromTime 1700000000123 = 10
   \<and> DateFromTime 1700000000123 = 14 \<and> WeekDay 1700000000123 = 2
   \<and> HourFromTime 1700000000123 = 22 \<and> MinFromTime 1700000000123 = 13
   \<and> YearFromTime (- 1325635199995) = 1927 \<and> MonthFromTime (- 1325635199995) = 11
   \<and> DateFromTime (- 1325635199995) = 30 \<and> WeekDay (- 1325635199995) = 5"
  by code_simp

lemma align_date_examples:
  "align_date 1700000000123 ''M'' = Some 1698796800000
   \<and> align_date 1700000000123 ''W'' = Some 1699833600000
   \<and> align_date 1700000000123 ''D'' = Some 1699920000000
   \<and> align_date 1700000000123 ''15'' = Some 1699999200000
   \<and> align_date (- 1325635199995) ''M'' = Some (- 1328140800000)
   \<and> align_date (- 1325635199995) ''W'' = Some (- 1325980800000)
   \<and> align_date (- 8640000000000000) ''W'' = None"
  by code_simp

lemma setUTCMonth_example:
  "setUTCMonth 1706659200000 (MonthFromTime 1706659200000 + 1) = Some 1709337600000"
  by code_simp

lemma DateFromTime_pos: "1 \<le> DateFromTime t"
  using MonthStart_le [of t] by (simp add: DateFromTime_eq)

lemma MakeDate_mono: "d \<le> d' \<Longrightarrow> MakeDate d 0 \<le> MakeDate d' 0"
  by (simp add: MakeDate_def msPerDay_def)

lemma day_start_le: "Day r \<le> Day t \<Longrightarrow> MakeDate (Day r) 0 \<le> t"
  using MakeDate_mono [of "Day r" "Day t"] Day_start_le [of t] by (simp add: MakeDate_def)

lemma bucket_le:
  assumes "0 \<le> m" "m \<le> MinFromTime t"
  shows "MakeDate (Day t) (MakeTime (HourFromTime t) m 0 0) \<le> t"
proof -
  have "0 \<le> t mod msPerMinute" by (simp add: msPerMinute_def)
  moreover have "MakeTime (HourFromTime t) m 0 0 \<le> MakeTime (HourFromTime t) (MinFromTime t) 0 0"
    using assms(2) by (simp add: MakeTime_def msPerMinute_def)
  ultimately show ?thesis using time_decomp [of t] by (simp add: MakeDate_def)
qed

lemma align_date_le:
  assumes "align_date t interval = Some r"
  shows "r \<le> t"
proof -
  note mr = MinFromTime_range [of t]
  consider "interval = ''M''" | "interval = ''W''" | "interval = ''D''"
    | "interval = ''60''" | "interval = ''15''" | "interval = ''5''" | "interval = ''1''"
    | "interval \<noteq> ''M''" "interval \<noteq> ''W''" "interval \<noteq> ''D''" "interval \<noteq> ''60''"
      "interval \<noteq> ''15''" "interval \<noteq> ''5''" "interval \<noteq> ''1''"
    by blast
  then show ?thesis
  proof cases
    case 1
    with assms obtain t1 where t1: "setUTCDate t 1 = Some t1"
      and r: "setUTCHours t1 0 0 0 0 = Some r"
      by (auto simp: align_date_def bind_Some)
    from setUTCDate_Some [OF t1] DateFromTime_pos [of t] have "Day t1 \<le> Day t" by simp
    moreover from r have "r = MakeDate (Day t1) 0" by (simp add: setUTCHours_zero TimeClip_Some)
    ultimately show ?thesis using day_start_le by simp
  next
    case 2
    with assms obtain t1 where
      t1: "setUTCDate t (DateFromTime t - (WeekDay t + 6) mod 7) = Some t1"
      and r: "setUTCHours t1 0 0 0 0 = Some r"
      by (auto simp: align_date_def bind_Some Let_def)
    have "0 \<le> (WeekDay t + 6) mod 7" by simp
    with setUTCDate_Some [OF t1] have "Day t1 \<le> Day t" by simp
    moreover from r have "r = MakeDate (Day t1) 0" by (simp add: setUTCHours_zero TimeClip_Some)
    ultimately show ?thesis using day_start_le by simp
  next
    case 3
    with assms have "r = MakeDate (Day t) 0"
      by (simp add: align_date_def setUTCHours_zero TimeClip_Some)
    then show ?thesis using day_start_le [of t t] by simp
  next
    case 4
    with assms have "r = MakeDate (Day t) (MakeTime (HourFromTime t) 0 0 0)"
      by (simp add: align_date_def setUTCMinutes_def TimeClip_Some)
    then show ?thesis using bucket_le [of 0 t] mr by simp
  next
    case 5
    with assms have "r = MakeDate (Day t) (MakeTime (HourFromTime t) (MinFromTime t div 15 * 15) 0 0)"
      by (simp add: align_date_def setUTCMinutes_def TimeClip_Some)
    then show ?thesis
      using bucket_le [of "MinFromTime t div 15 * 15" t] floor_bucket [of 15 "MinFromTime t"] mr
      by simp
  next
    case 6
    with assms have "r = MakeDate (Day t) (MakeTime (HourFromTime t) (MinFromTime t div 5 * 5) 0 0)"
      by (simp add: align_date_def setUTCMinutes_def TimeClip_Some)
    then show ?thesis
      using bucket_le [of "MinFromTime t div 5 * 5" t] floor_bucket [of 5 "MinFromTime t"] mr
      by simp
  next
    case 7
    with assms have "r = MakeDate (Day t) (MakeTime (HourFromTime t) (MinFromTime t) 0 0)"
      by (simp add: align_date_def setUTCSeconds_def TimeClip_Some)
    then show ?thesis using bucket_le [of "MinFromTime t" t] mr by simp
  next
    case 8
    with assms show ?thesis by (simp add: align_date_def)
  qed
qed

lemma new_Date_int:
  "new_Date (Fin (real_of_int t)) = (if \<bar>t\<bar> \<le> maxTime then Some t else None)"
proof -
  have "(\<bar>real_of_int t\<bar> \<le> real_of_int maxTime) = (\<bar>t\<bar> \<le> maxTime)"
    by (metis of_int_abs of_int_le_iff)
  then show ?thesis by auto
qed

lemma alignToInterval_le:
  assumes "alignToInterval (Fin (real_of_int t)) interval = Fin r"
  shows "r \<le> real_of_int t"
proof (cases "\<bar>t\<bar> \<le> maxTime")
  case True
  with assms obtain r' where a: "align_date t interval = Some r'" and r: "r = real_of_int r'"
    by (cases "align_date t interval") (auto simp: alignToInterval_def new_Date_int simp del: new_Date.simps)
  from align_date_le [OF a] r show ?thesis by simp
next
  case False
  with assms show ?thesis by (simp add: alignToInterval_def new_Date_int del: new_Date.simps)
qed

lemma alignToInterval_other:
  assumes "interval \<noteq> ''M''" "interval \<noteq> ''W''" "interval \<noteq> ''D''" "interval \<noteq> ''60''"
    "interval \<noteq> ''15''" "interval \<noteq> ''5''" "interval \<noteq> ''1''" and "\<bar>t\<bar> \<le> maxTime"
  shows "alignToInterval (Fin (real_of_int t)) interval = Fin (real_of_int t)"
  using assms by (simp add: alignToInterval_def new_Date_int align_date_def del: new_Date.simps)

text \<open>
  C10. \<open>alignToInterval\<close> is idempotent: for every number \<open>ts\<close> (NaN and the infinities
  included) and every interval token, recognised or not, aligning an aligned timestamp
  returns it unchanged. A token that is not recognised leaves every integer timestamp
  within the range of a Date unchanged.
\<close>

theorem alignToInterval_idempotent:
  "alignToInterval (alignToInterval ts interval) interval = alignToInterval ts interval
   \<and> (interval \<noteq> ''M'' \<and> interval \<noteq> ''W'' \<and> interval \<noteq> ''D'' \<and> interval \<noteq> ''60''
        \<and> interval \<noteq> ''15'' \<and> interval \<noteq> ''5'' \<and> interval \<noteq> ''1'' \<and> \<bar>t\<bar> \<le> maxTime \<longrightarrow>
      alignToInterval (Fin (real_of_int t)) interval = Fin (real_of_int t))"
  using alignToInterval_idem [of ts interval] alignToInterval_other [of interval t] by blast

theorem alignToInterval_idempotent_witness:
  "alignToInterval (alignToInterval (Fin 1700000000123) ''Q'') ''Q'' =
     alignToInterval (Fin 1700000000123) ''Q''
   \<and> alignToInterval (Fin 1700000000123) ''Q'' = Fin 1700000000123"
proof -
  have v: "\<bar>1700000000123\<bar> \<le> maxTime" by (simp add: maxTime_def)
  from alignToInterval_idempotent [of "Fin 1700000000123" "''Q''" 1700000000123] v
  show ?thesis by simp
qed

section \<open>Properties of the chart geometry\<close>

lemma visible_slice_nonempty: "data \<noteq> [] \<Longrightarrow> visible_slice data a b \<noteq> []"
  by (simp add: visible_slice_def Let_def)

lemma length_tick_loop: "length (tick_loop g xs interval xMax t) \<le> g"
  by (induction g arbitrary: t) auto

lemma length_xTicks_of: "2 \<le> length (xTicks_of xs interval xMin xMax)"
  by (simp add: xTicks_of_def Let_def)

lemma xLabels_of_total: "ticks \<noteq> [] \<Longrightarrow> \<exists>ls. xLabels_of interval ticks = Inr ls"
  by (cases ticks) (simp_all add: xLabels_of_def Let_def)

lemma xTicks_of_nonempty: "xTicks_of xs interval xMin xMax \<noteq> []"
  using length_xTicks_of [of xs interval xMin xMax] by auto

lemma transformed_range_returns:
  "length tVals \<le> maxArgs \<Longrightarrow>
   transformed_range maxArgs tVals =
     Inr (padded_range (foldl Math_min PInf tVals) (foldl Math_max NInf tVals))"
  by (simp add: transformed_range_def Math_min_apply_def Math_max_apply_def)

lemma transformed_range_throws:
  "maxArgs < length tVals \<Longrightarrow> transformed_range maxArgs tVals = Inl RangeError"
  by (simp add: transformed_range_def Math_min_apply_def)

lemma useChartPath_nonempty:
  assumes "data \<noteq> []"
    and "length (visible_slice data (max (x0 domain) (time (hd data)))
                   (min (x1 domain) (time (last data)))) \<le> maxArgs"
  shows "\<exists>labels.
    xLabels_of interval
      (xTicks_of (xScale_of width padLeft rightMargin (max (x0 domain) (time (hd data)))
                    (min (x1 domain) (time (last data))))
         interval (max (x0 domain) (time (hd data))) (min (x1 domain) (time (last data))))
      = Inr labels \<and>
    useChartPath maxArgs data width height padLeft interval domain yMode rightMargin =
      (let xMin = max (x0 domain) (time (hd data));
           xMax = min (x1 domain) (time (last data));
           slice = visible_slice data xMin xMax;
           anch = pvalue (hd slice);
           vals = map pvalue slice;
           useLog = useLog_of yMode vals;
           tf = tf_of useLog yMode anch;
           invf = invf_of useLog yMode anch;
           r = padded_range (foldl Math_min PInf (map tf vals)) (foldl Math_max NInf (map tf vals));
           tMin = fst r;
           tMax = snd r;
           xs = xScale_of width padLeft rightMargin xMin xMax;
           ys = yScale_of height padLeft tf tMin tMax
       in Inr \<lparr>path = path_of xs ys slice,
                xTicks = xTicks_of xs interval xMin xMax,
                xLabels = labels,
                yTicks = yTicks_of height padLeft yMode invf anch tMin tMax,
                xScale = xs,
                yScale = ys,
                lastp = Some (last slice),
                anchor = anch\<rparr>)"
proof -
  let ?xMin = "max (x0 domain) (time (hd data))"
  let ?xMax = "min (x1 domain) (time (last data))"
  let ?xs = "xScale_of width padLeft rightMargin ?xMin ?xMax"
  obtain labels where l: "xLabels_of interval (xTicks_of ?xs interval ?xMin ?xMax) = Inr labels"
    using xLabels_of_total [OF xTicks_of_nonempty] by blast
  obtain s0 rest where s: "visible_slice data ?xMin ?xMax = s0 # rest"
    using visible_slice_nonempty [OF assms(1), of ?xMin ?xMax]
    by (cases "visible_slice data ?xMin ?xMax") auto
  from assms(2) s have len: "Suc (length rest) \<le> maxArgs" by simp
  show ?thesis
    using assms(1) l s len
    by (intro exI [of _ labels])
      (simp add: useChartPath_def Let_def split_beta transformed_range_returns)
qed

lemma useChartPath_throws:
  assumes "data \<noteq> []"
    and "maxArgs < length (visible_slice data (max (x0 domain) (time (hd data)))
                   (min (x1 domain) (time (last data))))"
  shows "useChartPath maxArgs data width height padLeft interval domain yMode rightMargin
           = Inl RangeError"
proof -
  let ?xMin = "max (x0 domain) (time (hd data))"
  let ?xMax = "min (x1 domain) (time (last data))"
  obtain s0 rest where s: "visible_slice data ?xMin ?xMax = s0 # rest"
    using visible_slice_nonempty [OF assms(1), of ?xMin ?xMax]
    by (cases "visible_slice data ?xMin ?xMax") auto
  from assms(2) s have len: "maxArgs < Suc (length rest)" by simp
  show ?thesis
    using assms(1) s len
    by (simp add: useChartPath_def Let_def transformed_range_throws)
qed

lemma useChartPath_returned:
  assumes "data \<noteq> []"
    and "useChartPath maxArgs data width height padLeft interval domain yMode rightMargin = Inr g"
  shows "length (visible_slice data (max (x0 domain) (time (hd data)))
                   (min (x1 domain) (time (last data)))) \<le> maxArgs"
proof (rule ccontr)
  assume "\<not> ?thesis"
  then have "maxArgs < length (visible_slice data (max (x0 domain) (time (hd data)))
                   (min (x1 domain) (time (last data))))" by simp
  from useChartPath_throws [OF assms(1) this, of width height padLeft interval yMode rightMargin]
    assms(2)
  show False by simp
qed


text \<open>
  C3. On the empty series the geometry has no x tick, for every domain, interval and
  mode, and the condition of the component's own runtime test
  \<^verbatim>\<open>console.assert(xTicks.length >= 2, "Expected at least 2 x-ticks")\<close> is false on it.
\<close>

theorem useChartPath_empty_no_ticks:
  "\<exists>g. useChartPath maxArgs [] width height padLeft interval domain yMode rightMargin = Inr g
       \<and> xTicks g = [] \<and> length (xTicks g) < 2 \<and> assert_xTicks g = False"
  by (simp add: useChartPath_def assert_xTicks_def)

lemma tick_loop_ts:
  "map tick_ts (tick_loop g xs interval xMax t) =
     takeWhile (\<lambda>u. u \<le> Fin xMax)
       (map (\<lambda>k. ((\<lambda>u. addInterval u interval) ^^ k) t) [0 ..< g])"
proof (induction g arbitrary: t)
  case 0
  show ?case by simp
next
  case (Suc g)
  have "map (\<lambda>k. ((\<lambda>u. addInterval u interval) ^^ k) t) [0 ..< Suc g] =
      t # map (\<lambda>k. ((\<lambda>u. addInterval u interval) ^^ k) (addInterval t interval)) [0 ..< g]"
    by (simp only: upt_conv_Cons [of 0 "Suc g"] map_Suc_upt [symmetric]) 
       (simp add: comp_def funpow_swap1 [of "\<lambda>u. addInterval u interval"] del: upt_Suc)
  then show ?case using Suc.IH [of "addInterval t interval"] by (simp del: upt_Suc)
qed

lemma tick_loop_x: "map tick_x (tick_loop g xs interval xMax t) = map xs (map tick_ts (tick_loop g xs interval xMax t))"
  by (induction g arbitrary: t) auto

text \<open>
  On a non-empty series, when the geometry is computed, it has at least two x ticks and
  the runtime test holds: the loop starts at the aligned \<open>xMin\<close> and goes on by
  \<open>addInterval\<close> while the timestamp is at most \<open>xMax\<close>, for at most 5000 ticks; when
  it makes fewer than two ticks, the ticks at \<open>xMin\<close> and \<open>xMax\<close> are appended.
\<close>

lemma useChartPath_xTicks_nonempty:
  assumes "data \<noteq> []"
    and "useChartPath maxArgs data width height padLeft interval domain yMode rightMargin = Inr g"
  shows "2 \<le> length (xTicks g) \<and> assert_xTicks g
    \<and> (let xMin = max (x0 domain) (time (hd data));
            xMax = min (x1 domain) (time (last data));
            loop = tick_loop 5000 (xScale g) interval xMax (alignToInterval (Fin xMin) interval)
        in length loop \<le> 5000
           \<and> map tick_ts loop =
               takeWhile (\<lambda>u. u \<le> Fin xMax)
                 (map (\<lambda>k. ((\<lambda>u. addInterval u interval) ^^ k)
                              (alignToInterval (Fin xMin) interval)) [0 ..< 5000])
           \<and> map tick_x loop = map (xScale g) (map tick_ts loop)
           \<and> xTicks g =
               (if length loop < 2
                then loop @ [\<lparr>tick_x = xScale g (Fin xMin), tick_ts = Fin xMin\<rparr>,
                             \<lparr>tick_x = xScale g (Fin xMax), tick_ts = Fin xMax\<rparr>]
                else loop))"
proof -
  let ?xMin = "max (x0 domain) (time (hd data))"
  let ?xMax = "min (x1 domain) (time (last data))"
  from useChartPath_returned [OF assms]
  have len: "length (visible_slice data ?xMin ?xMax) \<le> maxArgs" .
  from useChartPath_nonempty [OF assms(1) len, of interval width padLeft rightMargin height yMode]
    assms(2)
  have xt: "xTicks g = xTicks_of (xScale g) interval ?xMin ?xMax"
    unfolding Let_def by auto
  let ?loop = "tick_loop 5000 (xScale g) interval ?xMax (alignToInterval (Fin ?xMin) interval)"
  have 1: "2 \<le> length (xTicks g)" by (simp add: xt length_xTicks_of)
  then have 0: "assert_xTicks g" by (simp add: assert_xTicks_def)
  have 2: "length ?loop \<le> 5000" by (rule length_tick_loop)
  have 3: "xTicks g =
      (if length ?loop < 2
       then ?loop @ [\<lparr>tick_x = xScale g (Fin ?xMin), tick_ts = Fin ?xMin\<rparr>,
                     \<lparr>tick_x = xScale g (Fin ?xMax), tick_ts = Fin ?xMax\<rparr>]
       else ?loop)"
    by (simp add: xt xTicks_of_def Let_def)
  have 4: "map tick_ts ?loop =
               takeWhile (\<lambda>u. u \<le> Fin ?xMax)
                 (map (\<lambda>k. ((\<lambda>u. addInterval u interval) ^^ k)
                              (alignToInterval (Fin ?xMin) interval)) [0 ..< 5000])"
    by (rule tick_loop_ts)
  have 5: "map tick_x ?loop = map (xScale g) (map tick_ts ?loop)" by (rule tick_loop_x)
  show ?thesis unfolding Let_def using 0 1 2 3 4 5 by blast
qed

text \<open>
  The aligned timestamp is at most \<open>xMin\<close> when \<open>xMin\<close> is an integer
  (\<open>alignToInterval_le\<close>). A negative \<open>xMin\<close> that is not an integer can be aligned
  above itself, because the \<open>Date\<close> constructor truncates towards zero.
\<close>

lemma alignToInterval_fraction:
  "alignToInterval (Fin (- (1 / 2))) ''D'' = Fin 0"
proof -
  have "\<lceil>- (1 / 2) :: real\<rceil> = 0" by (simp add: ceiling_eq_iff)
  then have n: "new_Date (Fin (- (1 / 2))) = Some 0" by (simp add: maxTime_def)
  have a: "align_date 0 ''D'' = Some 0" by code_simp
  show ?thesis by (simp add: alignToInterval_def n a del: new_Date.simps)
qed


lemma Math_log_not_id: "(\<lambda>v. Math_log v) \<noteq> (\<lambda>v. v)"
proof
  assume "(\<lambda>v. Math_log v) = (\<lambda>v. v)"
  then have "Math_log (Fin 1) = Fin 1" by (rule fun_cong)
  then show False by simp
qed

lemma not_pos_if_le_zero: "v \<le> Fin 0 \<Longrightarrow> \<not> Fin 0 < v"
  by (cases v) auto

lemma tf_of_log:
  "tf_of (useLog_of ''log'' vals) ''log'' anch =
     (if \<forall>v\<in>set vals. Fin 0 < v then (\<lambda>v. Math_log v) else (\<lambda>v. v))"
  "invf_of (useLog_of ''log'' vals) ''log'' anch =
     (if \<forall>v\<in>set vals. Fin 0 < v then (\<lambda>v. Math_exp v) else (\<lambda>v. v))"
  by (simp_all add: tf_of_def invf_of_def useLog_of_def list_all_iff)

text \<open>
  C4. In log mode, on a non-empty series whose geometry is computed, let the visible
  slice be the points with \<open>xMin \<le> time \<le> xMax\<close>, or the whole series when there is
  none. The y scale of the chart maps \<open>v\<close> to the pixel of \<open>tf v\<close> in the padded range of
  the transformed values of the slice, and the y ticks are made with the inverse \<open>invf\<close>,
  where \<open>tf\<close> is the logarithm and \<open>invf\<close> the exponential when every value of the slice is
  greater than 0, and both are the identity otherwise. So \<open>tf\<close> is the logarithm if and
  only if every visible value is greater than 0, and it is the identity whenever some
  visible value is \<open>\<le> 0\<close>.
\<close>

theorem log_mode_transform:
  assumes "data \<noteq> []"
    and "useChartPath maxArgs data width height padLeft interval domain ''log'' rightMargin
           = Inr g"
  shows "(let xMin = max (x0 domain) (time (hd data));
              xMax = min (x1 domain) (time (last data));
              inside = filter (\<lambda>d. time d \<ge> xMin \<and> time d \<le> xMax) data;
              slice = (if inside = [] then data else inside);
              vals = map pvalue slice;
              positive = (\<forall>v\<in>set vals. Fin 0 < v);
              tf = (if positive then (\<lambda>v. Math_log v) else (\<lambda>v. v));
              invf = (if positive then (\<lambda>v. Math_exp v) else (\<lambda>v. v));
              r = padded_range (foldl Math_min PInf (map tf vals))
                    (foldl Math_max NInf (map tf vals));
              tMin = fst r;
              tMax = snd r
          in yScale g =
               (\<lambda>v. Fin (height - padLeft)
                     - ((tf v - tMin) / Math_max (Fin (1 / 1000000000)) (tMax - tMin))
                       * Fin (height - 2 * padLeft))
             \<and> yTicks g = yTicks_of height padLeft ''log'' invf (pvalue (hd slice)) tMin tMax
             \<and> path g = path_of (xScale g) (yScale g) slice
             \<and> ((tf = Math_log) = positive)
             \<and> ((\<exists>v\<in>set vals. v \<le> Fin 0) \<longrightarrow> tf = (\<lambda>v. v) \<and> invf = (\<lambda>v. v)))"
proof -
  define xMin where "xMin = max (x0 domain) (time (hd data))"
  define xMax where "xMax = min (x1 domain) (time (last data))"
  define inside where "inside = filter (\<lambda>d. time d \<ge> xMin \<and> time d \<le> xMax) data"
  define slice where "slice = (if inside = [] then data else inside)"
  define vals where "vals = map pvalue slice"
  define positive where "positive = (\<forall>v\<in>set vals. Fin 0 < v)"
  define tf where "tf = (if positive then (\<lambda>v. Math_log v) else (\<lambda>v. v))"
  define invf where "invf = (if positive then (\<lambda>v. Math_exp v) else (\<lambda>v. v))"
  define r where "r = padded_range (foldl Math_min PInf (map tf vals))
                    (foldl Math_max NInf (map tf vals))"
  have vs: "visible_slice data xMin xMax = slice"
    by (simp add: visible_slice_def Let_def slice_def inside_def)
  have t: "tf_of (useLog_of ''log'' vals) ''log'' (pvalue (hd slice)) = tf"
    unfolding tf_def positive_def by (rule tf_of_log(1))
  have i: "invf_of (useLog_of ''log'' vals) ''log'' (pvalue (hd slice)) = invf"
    unfolding invf_def positive_def by (rule tf_of_log(2))
  from useChartPath_returned [OF assms]
  have len: "length (visible_slice data (max (x0 domain) (time (hd data)))
                   (min (x1 domain) (time (last data)))) \<le> maxArgs" .
  from useChartPath_nonempty [OF assms(1) len, of interval width padLeft rightMargin height "''log''"]
    assms(2)
  have g: "yScale g = yScale_of height padLeft tf (fst r) (snd r)
      \<and> yTicks g = yTicks_of height padLeft ''log'' invf (pvalue (hd slice)) (fst r) (snd r)
      \<and> path g = path_of (xScale g) (yScale g) slice"
    unfolding Let_def xMin_def [symmetric] xMax_def [symmetric] vs vals_def [symmetric] t i
      r_def [symmetric]
    by auto
  have 1: "yScale g =
               (\<lambda>v. Fin (height - padLeft)
                     - ((tf v - fst r) / Math_max (Fin (1 / 1000000000)) (snd r - fst r))
                       * Fin (height - 2 * padLeft))"
    using g by (simp add: fun_eq_iff yScale_of_def y_pixel_def y_divisor_def)
  have 2: "(tf = Math_log) = positive"
    using Math_log_not_id by (auto simp: tf_def)
  have 3: "tf = (\<lambda>v. v) \<and> invf = (\<lambda>v. v)" if "\<exists>v\<in>set vals. v \<le> Fin 0"
  proof -
    from that not_pos_if_le_zero have "\<not> positive" unfolding positive_def by blast
    then show ?thesis by (simp add: tf_def invf_def)
  qed
  show ?thesis
    unfolding Let_def xMin_def [symmetric] xMax_def [symmetric] inside_def [symmetric]
      slice_def [symmetric] vals_def [symmetric] positive_def [symmetric] tf_def [symmetric]
      invf_def [symmetric] r_def [symmetric]
    using 1 2 3 g by blast
qed


lemma useChartPath_returns:
  assumes "length data \<le> maxArgs"
  shows "\<exists>g. useChartPath maxArgs data width height padLeft interval domain yMode rightMargin
           = Inr g"
proof (cases "data = []")
  case True
  then show ?thesis by (simp add: useChartPath_def)
next
  case False
  have "length (visible_slice data (max (x0 domain) (time (hd data)))
                   (min (x1 domain) (time (last data)))) \<le> length data"
    by (simp add: visible_slice_def Let_def)
  with assms have "length (visible_slice data (max (x0 domain) (time (hd data)))
                   (min (x1 domain) (time (last data)))) \<le> maxArgs" by simp
  from useChartPath_nonempty [OF False this, of interval width padLeft rightMargin height yMode]
  show ?thesis unfolding Let_def by blast
qed

lemma ln_110_100: "1 / 11 \<le> ln (110 :: real) - ln 100"
  using ln_diff_le [of "100 :: real" 110] by simp

theorem log_mode_transform_witness:
  "(\<exists>g. useChartPath 65536 [\<lparr>time = 0, pvalue = Fin 100\<rparr>, \<lparr>time = 1000, pvalue = Fin 110\<rparr>]
           1200 640 40 ''D'' \<lparr>x0 = 0, x1 = 1000\<rparr> ''log'' 90 = Inr g
        \<and> yScale g (Fin 100) = Fin (1660 / 3))
   \<and> (\<exists>g. useChartPath 65536 [\<lparr>time = 0, pvalue = Fin 100\<rparr>, \<lparr>time = 1000, pvalue = Fin (- 5)\<rparr>]
           1200 640 40 ''D'' \<lparr>x0 = 0, x1 = 1000\<rparr> ''log'' 90 = Inr g
        \<and> yScale g (Fin 100) = Fin (260 / 3))"
proof -
  let ?d1 = "[\<lparr>time = 0, pvalue = Fin 100\<rparr>, \<lparr>time = 1000, pvalue = Fin 110\<rparr>]"
  let ?d2 = "[\<lparr>time = 0, pvalue = Fin 100\<rparr>, \<lparr>time = 1000, pvalue = Fin (- 5)\<rparr>]"
  have ne1: "?d1 \<noteq> []" and ne2: "?d2 \<noteq> []" by simp_all
  have "length ?d1 \<le> 65536" by simp
  from useChartPath_returns [OF this]
  obtain g1 where g1: "useChartPath 65536 ?d1 1200 640 40 ''D'' \<lparr>x0 = 0, x1 = 1000\<rparr> ''log'' 90 = Inr g1"
    by blast
  have "length ?d2 \<le> 65536" by simp
  from useChartPath_returns [OF this]
  obtain g2 where g2: "useChartPath 65536 ?d2 1200 640 40 ''D'' \<lparr>x0 = 0, x1 = 1000\<rparr> ''log'' 90 = Inr g2"
    by blast
  define dl :: real where "dl = ln 110 - ln 100"
  have dl: "1 / 11 \<le> dl" unfolding dl_def by (rule ln_110_100)
  have l: "ln (110 :: real) = ln 100 + dl" by (simp add: dl_def)
  have r1: "padded_range (Fin (ln 100)) (Fin (ln 100 + dl)) =
      (Fin (ln 100 - dl * (1 / 10)), Fin (ln 100 + dl + dl * (1 / 10)))"
    using dl by (simp add: padded_range_def strict_eq_def minus_jsnum_def)
  have pos: "0 < dl" "\<not> dl < 0" using dl by simp_all
  have d1: "Fin (ln 100 + dl + dl * (1 / 10)) - Fin (ln 100 - dl * (1 / 10)) = Fin (dl * (12 / 10))"
    by (simp add: minus_jsnum_def)
  have m1: "Math_max (Fin (1 / 1000000000)) (Fin (dl * (12 / 10))) = Fin (dl * (12 / 10))"
    using dl by simp
  have n1: "Fin (ln 100) - Fin (ln 100 - dl * (1 / 10)) = Fin (dl * (1 / 10))"
    by (simp add: minus_jsnum_def)
  have q1: "Fin (dl * (1 / 10)) / Fin (dl * (12 / 10)) = Fin (1 / 12)"
    using pos by (simp add: field_simps)
  from log_mode_transform [OF ne1 g1]
  have y1: "yScale g1 (Fin 100) =
      Fin 600 - (Fin (ln 100) - fst (padded_range (Fin (ln 100)) (Fin (ln 100 + dl))))
        / Math_max (Fin (1 / 1000000000))
            (snd (padded_range (Fin (ln 100)) (Fin (ln 100 + dl)))
             - fst (padded_range (Fin (ln 100)) (Fin (ln 100 + dl)))) * Fin 560"
    unfolding Let_def using pos
    by (elim conjE) (simp add: l del: ln_less_cancel_iff ln_le_cancel_iff)
  have a: "yScale g1 (Fin 100) = Fin (1660 / 3)"
    unfolding y1 r1 fst_conv snd_conv d1 m1 n1 q1 by (simp add: minus_jsnum_def)
  from log_mode_transform [OF ne2 g2]
  have b: "yScale g2 (Fin 100) = Fin (260 / 3)"
    unfolding Let_def by (simp add: padded_range_def strict_eq_def minus_jsnum_def)
  show ?thesis using a b g1 g2 by blast
qed


lemma long_series:
  fixes n :: nat
  defines "data \<equiv> map (\<lambda>i. \<lparr>time = real i, pvalue = Fin 100\<rparr>) [0 ..< Suc n]"
  shows "data \<noteq> []"
    and "visible_slice data (max (x0 \<lparr>x0 = 0, x1 = real n\<rparr>) (time (hd data)))
           (min (x1 \<lparr>x0 = 0, x1 = real n\<rparr>) (time (last data))) = data"
    and "length data = Suc n"
proof -
  show ne: "data \<noteq> []" by (simp add: data_def del: upt_Suc)
  have h: "time (hd data) = 0"
    by (simp add: data_def hd_map del: upt_Suc)
  have l: "time (last data) = real n"
    by (simp add: data_def last_map del: upt_Suc)
  have "filter (\<lambda>d. time d \<ge> 0 \<and> time d \<le> real n) data = data"
    by (rule filter_True) (auto simp: data_def simp del: upt_Suc)
  then show "visible_slice data (max (x0 \<lparr>x0 = 0, x1 = real n\<rparr>) (time (hd data)))
           (min (x1 \<lparr>x0 = 0, x1 = real n\<rparr>) (time (last data))) = data"
    using ne by (simp add: visible_slice_def Let_def h l)
  show "length data = Suc n" by (simp add: data_def del: upt_Suc)
qed

text \<open>
  C6 at a long series. Whatever the number \<open>maxArgs\<close> of arguments that the engine passes
  through \<^verbatim>\<open>apply\<close>, the series of \<open>maxArgs + 1\<close> points at times \<open>0, 1, \<dots>, maxArgs\<close>, all
  of them visible, makes \<open>useChartPath\<close> throw a \<open>RangeError\<close>, at
  \<^verbatim>\<open>Math.min.apply(null, tVals)\<close>.
\<close>

theorem useChartPath_long_series_throws:
  "useChartPath maxArgs (map (\<lambda>i. \<lparr>time = real i, pvalue = Fin 100\<rparr>) [0 ..< Suc maxArgs])
     1200 640 40 ''D'' \<lparr>x0 = 0, x1 = real maxArgs\<rparr> ''linear'' 90 = Inl RangeError"
proof -
  let ?data = "map (\<lambda>i. \<lparr>time = real i, pvalue = Fin 100\<rparr>) [0 ..< Suc maxArgs]"
  note ls = long_series [of maxArgs]
  have "maxArgs < length (visible_slice ?data (max (x0 \<lparr>x0 = 0, x1 = real maxArgs\<rparr>) (time (hd ?data)))
           (min (x1 \<lparr>x0 = 0, x1 = real maxArgs\<rparr>) (time (last ?data))))"
    unfolding ls(2) ls(3) by simp
  from useChartPath_throws [OF ls(1) this] show ?thesis .
qed

text \<open>
  What the rest of C6 says holds of the code. The only error is that one: the geometry is
  computed whenever the visible slice has at most \<open>maxArgs\<close> points, so for every series
  of at most \<open>maxArgs\<close> points.
\<close>

lemma useChartPath_error:
  "useChartPath maxArgs data width height padLeft interval domain yMode rightMargin = Inl e
   \<Longrightarrow> e = RangeError \<and> data \<noteq> []
       \<and> maxArgs < length (visible_slice data (max (x0 domain) (time (hd data)))
                            (min (x1 domain) (time (last data))))"
proof -
  assume e: "useChartPath maxArgs data width height padLeft interval domain yMode rightMargin = Inl e"
  let ?slice = "visible_slice data (max (x0 domain) (time (hd data)))
                            (min (x1 domain) (time (last data)))"
  have ne: "data \<noteq> []" using e by (auto simp: useChartPath_def)
  have long: "maxArgs < length ?slice"
  proof (rule ccontr)
    assume "\<not> maxArgs < length ?slice"
    then have "length ?slice \<le> maxArgs" by simp
    from useChartPath_nonempty [OF ne this, of interval width padLeft rightMargin height yMode] e
    show False unfolding Let_def by auto
  qed
  from useChartPath_throws [OF ne long, of width height padLeft interval yMode rightMargin] e
  have "e = RangeError" by simp
  with ne long show ?thesis by blast
qed

text \<open>The empty series gives the empty geometry, with identity scales.\<close>

lemma useChartPath_empty:
  "useChartPath maxArgs [] width height padLeft interval domain yMode rightMargin =
     Inr \<lparr>path = [], xTicks = [], xLabels = [], yTicks = [],
          xScale = (\<lambda>t. t), yScale = (\<lambda>v. v), lastp = None, anchor = Fin 0\<rparr>"
  by (simp add: useChartPath_def)

text \<open>
  The transformed range: bounds that are not finite are replaced by 0 and 1, equal bounds
  are widened by 1 on each side, and the result is padded by a tenth of its width; it is
  always a pair of finite numbers.
\<close>

lemma padded_range_nonfinite:
  assumes "\<not> (isFinite tMin \<and> isFinite tMax)"
  shows "padded_range tMin tMax = (Fin (0 - 1 / 10), Fin (1 + 1 / 10))"
  using assms by (simp add: padded_range_def strict_eq_def minus_jsnum_def)

lemma padded_range_equal:
  "padded_range (Fin m) (Fin m) = (Fin (m - 1 - 2 / 10), Fin (m + 1 + 2 / 10))"
  by (simp add: padded_range_def strict_eq_def minus_jsnum_def)

lemma padded_range_distinct:
  assumes "a \<noteq> b"
  shows "padded_range (Fin a) (Fin b) =
           (Fin (a - (b - a) * (1 / 10)), Fin (b + (b - a) * (1 / 10)))"
  using assms by (simp add: padded_range_def strict_eq_def minus_jsnum_def)

lemma padded_range_finite: "\<exists>a b. padded_range tMin tMax = (Fin a, Fin b)"
proof (cases "isFinite tMin \<and> isFinite tMax")
  case True
  then obtain a b where ab: "tMin = Fin a" "tMax = Fin b"
    by (cases tMin; cases tMax) auto
  show ?thesis
  proof (cases "a = b")
    case True
    with ab padded_range_equal [of a] show ?thesis by blast
  next
    case False
    with ab padded_range_distinct [of a b] show ?thesis by blast
  qed
next
  case False
  from padded_range_nonfinite [OF this] show ?thesis by blast
qed

text \<open>The reference of the percent transform, \<^verbatim>\<open>Math.max(1e-9, anchor)\<close>, is never zero.\<close>

lemma percent_ref_nonzero: "Math_max (Fin (1 / 1000000000)) anch \<noteq> Fin 0"
  by (cases anch) auto

text \<open>
  The scales of a computed geometry divide by numbers that are not zero: the x scale by
  \<open>max 1 (xMax - xMin)\<close>, the y scale by a finite number that is at least \<open>1e-9\<close>.
\<close>

lemma useChartPath_scales:
  assumes "data \<noteq> []"
    and "useChartPath maxArgs data width height padLeft interval domain yMode rightMargin = Inr g"
  shows "\<exists>dx dy tMin.
    1 \<le> dx \<and> 1 / 1000000000 \<le> dy
    \<and> (let xMin = max (x0 domain) (time (hd data));
            xMax = min (x1 domain) (time (last data));
            slice = visible_slice data xMin xMax;
            vals = map pvalue slice;
            tf = tf_of (useLog_of yMode vals) yMode (pvalue (hd slice))
        in dx = max 1 (xMax - xMin)
           \<and> xScale g =
               (\<lambda>t. Fin padLeft + ((t - Fin xMin) / Fin dx) * Fin (width - padLeft - rightMargin))
           \<and> yScale g =
               (\<lambda>v. Fin (height - padLeft)
                     - ((tf v - Fin tMin) / Fin dy) * Fin (height - 2 * padLeft))
           \<and> (\<exists>tMax. padded_range (foldl Math_min PInf (map tf vals))
                        (foldl Math_max NInf (map tf vals)) = (Fin tMin, Fin tMax)
                 \<and> dy = max (1 / 1000000000) (tMax - tMin)))"
proof -
  define xMin where "xMin = max (x0 domain) (time (hd data))"
  define xMax where "xMax = min (x1 domain) (time (last data))"
  define slice where "slice = visible_slice data xMin xMax"
  define vals where "vals = map pvalue slice"
  define tf where "tf = tf_of (useLog_of yMode vals) yMode (pvalue (hd slice))"
  define r where "r = padded_range (foldl Math_min PInf (map tf vals))
                        (foldl Math_max NInf (map tf vals))"
  obtain a b where ab: "r = (Fin a, Fin b)" using padded_range_finite unfolding r_def by blast
  from useChartPath_returned [OF assms]
  have len: "length (visible_slice data (max (x0 domain) (time (hd data)))
                   (min (x1 domain) (time (last data)))) \<le> maxArgs" .
  from useChartPath_nonempty [OF assms(1) len, of interval width padLeft rightMargin height yMode]
    assms(2)
  have g: "xScale g = xScale_of width padLeft rightMargin xMin xMax
      \<and> yScale g = yScale_of height padLeft tf (fst r) (snd r)"
    unfolding Let_def xMin_def [symmetric] xMax_def [symmetric] slice_def [symmetric]
      vals_def [symmetric] tf_def [symmetric] r_def [symmetric]
    by auto
  have x: "xScale g =
      (\<lambda>t. Fin padLeft + ((t - Fin xMin) / Fin (max 1 (xMax - xMin)))
                           * Fin (width - padLeft - rightMargin))"
    using g by (simp add: fun_eq_iff xScale_of_def x_divisor_def)
  have d: "Math_max (Fin (1 / 1000000000)) (Fin b - Fin a) = Fin (max (1 / 1000000000) (b - a))"
    by (simp add: minus_jsnum_def max_def)
  have y: "yScale g =
      (\<lambda>v. Fin (height - padLeft)
            - ((tf v - Fin a) / Fin (max (1 / 1000000000) (b - a))) * Fin (height - 2 * padLeft))"
    using g by (simp add: fun_eq_iff yScale_of_def y_pixel_def y_divisor_def ab d)
  have 1: "(1::real) \<le> max 1 (xMax - xMin)" by simp
  have 2: "(1 / 1000000000 :: real) \<le> max (1 / 1000000000) (b - a)" by simp
  show ?thesis
    unfolding Let_def xMin_def [symmetric] xMax_def [symmetric] slice_def [symmetric]
      vals_def [symmetric] tf_def [symmetric] r_def [symmetric]
    using 1 2 x y ab by blast
qed

section \<open>Properties of the viewport\<close>

lemma nearest_loop_keep:
  assumes "\<forall>p\<in>set ps. x0 a \<le> time p \<and> time p \<le> x1 a \<longrightarrow> \<not> Fin \<bar>time p - ts\<bar> < best"
  shows "nearest_loop a ts best nr ps = nr"
  using assms by (induction ps) (auto simp: Let_def)

lemma Fin_less_trans: "a < b \<Longrightarrow> Fin b < best \<Longrightarrow> Fin a < best"
  by (cases best) auto

lemma Fin_less_between: "Fin a < best \<Longrightarrow> \<not> Fin b < best \<Longrightarrow> a < b"
  by (cases best) auto

lemma nearest_loop_first_min:
  assumes "\<exists>p\<in>set ps. x0 a \<le> time p \<and> time p \<le> x1 a \<and> Fin \<bar>time p - ts\<bar> < best"
  shows "\<exists>pre n post. ps = pre @ n # post \<and> nearest_loop a ts best nr ps = n
     \<and> x0 a \<le> time n \<and> time n \<le> x1 a \<and> Fin \<bar>time n - ts\<bar> < best
     \<and> (\<forall>q\<in>set pre. x0 a \<le> time q \<and> time q \<le> x1 a \<longrightarrow> \<bar>time n - ts\<bar> < \<bar>time q - ts\<bar>)
     \<and> (\<forall>q\<in>set post. x0 a \<le> time q \<and> time q \<le> x1 a \<longrightarrow> \<bar>time n - ts\<bar> \<le> \<bar>time q - ts\<bar>)"
  using assms
proof (induction ps arbitrary: best nr)
  case Nil
  then show ?case by simp
next
  case (Cons p ps)
  let ?P = "\<lambda>q. x0 a \<le> time q \<and> time q \<le> x1 a"
  let ?d = "\<lambda>q. \<bar>time q - ts\<bar>"
  show ?case
  proof (cases "?P p \<and> Fin (?d p) < best")
    case True
    show ?thesis
    proof (cases "\<exists>q\<in>set ps. x0 a \<le> time q \<and> time q \<le> x1 a \<and> Fin (?d q) < Fin (?d p)")
      case better: True
      from Cons.IH [OF better, of p] obtain pre n post where
        h: "ps = pre @ n # post" "nearest_loop a ts (Fin (?d p)) p ps = n" "?P n"
          "Fin (?d n) < Fin (?d p)"
          "\<forall>q\<in>set pre. ?P q \<longrightarrow> ?d n < ?d q" "\<forall>q\<in>set post. ?P q \<longrightarrow> ?d n \<le> ?d q"
        by blast
      have "p # ps = (p # pre) @ n # post" using h(1) by simp
      moreover have "nearest_loop a ts best nr (p # ps) = n" using True h(2) by (simp add: Let_def)
      moreover have "Fin (?d n) < best" using h(4) True Fin_less_trans by simp
      moreover have "\<forall>q\<in>set (p # pre). ?P q \<longrightarrow> ?d n < ?d q" using h(4,5) by simp
      ultimately show ?thesis using h(3,6) by blast
    next
      case none: False
      then have "nearest_loop a ts (Fin (?d p)) p ps = p"
        by (intro nearest_loop_keep) auto
      then have "nearest_loop a ts best nr (p # ps) = p" using True by (simp add: Let_def)
      moreover have "p # ps = [] @ p # ps" by simp
      moreover have "\<forall>q\<in>set ps. ?P q \<longrightarrow> ?d p \<le> ?d q" using none by auto
      ultimately show ?thesis using True by (metis empty_iff list.set(1))
    qed
  next
    case False
    with Cons.prems have ex: "\<exists>q\<in>set ps. x0 a \<le> time q \<and> time q \<le> x1 a \<and> Fin (?d q) < best"
      by auto
    from Cons.IH [OF ex, of nr] obtain pre n post where
      h: "ps = pre @ n # post" "nearest_loop a ts best nr ps = n" "?P n"
        "Fin (?d n) < best"
        "\<forall>q\<in>set pre. ?P q \<longrightarrow> ?d n < ?d q" "\<forall>q\<in>set post. ?P q \<longrightarrow> ?d n \<le> ?d q"
      by blast
    have "p # ps = (p # pre) @ n # post" using h(1) by simp
    moreover have "nearest_loop a ts best nr (p # ps) = n" using False h(2) by (auto simp: Let_def)
    moreover have "?P p \<longrightarrow> ?d n < ?d p" using False h(4) Fin_less_between by blast
    then have "\<forall>q\<in>set (p # pre). ?P q \<longrightarrow> ?d n < ?d q" using h(5) by simp
    ultimately show ?thesis using h(3,4,6) by blast
  qed
qed

lemma chart_of_returns:
  "length (v_synth st) \<le> maxArgs \<Longrightarrow> \<exists>ch. chart_of maxArgs st = Inr ch"
  unfolding chart_of_def by (rule useChartPath_returns)

lemma onPointerMove_cross:
  assumes "v_synth st \<noteq> []" and "chart_of maxArgs st = Inr ch"
  shows "\<exists>st'. onPointerMove maxArgs st e = Inr st' \<and>
     v_cross st' =
       (let a = activeDomain st;
            ts = cursor_time a (clamp (clientX e - rect_left e) 0 chart_width);
            n = nearest_point (v_synth st) a ts
        in Some \<lparr>cross_x = xScale ch (Fin (time n)), cross_y = yScale ch (pvalue n),
                 cross_ts = time n, cross_price = pvalue n\<rparr>)"
  using assms by (simp add: onPointerMove_def Let_def split: option.splits)

text \<open>
  C8 (as amended). For every non-empty series, the render computes its chart when the
  series has at most \<open>maxArgs\<close> points, and for every render that computed its chart and
  every pointer position, the crosshair shows the pixel position (by the chart's scales),
  timestamp and price of one point of the series. When some point lies within the active
  domain, it is the first point of the series, among those within the domain, at minimal
  time-distance from the cursor's timestamp: within the domain, strictly nearer than
  every point before it and at least as near as every point after it. When no point lies
  within the active domain, it is the first point of the series.
\<close>

theorem crosshair_nearest:
  assumes "v_synth st \<noteq> []"
  shows "(length (v_synth st) \<le> maxArgs \<longrightarrow> (\<exists>ch. chart_of maxArgs st = Inr ch))
    \<and> (\<forall>ch. chart_of maxArgs st = Inr ch \<longrightarrow>
         (\<exists>st'. onPointerMove maxArgs st e = Inr st' \<and>
    (let a = activeDomain st;
         ts = cursor_time a (clamp (clientX e - rect_left e) 0 chart_width);
         n = nearest_point (v_synth st) a ts
     in v_cross st' = Some \<lparr>cross_x = xScale ch (Fin (time n)), cross_y = yScale ch (pvalue n),
                             cross_ts = time n, cross_price = pvalue n\<rparr>
        \<and> ((\<exists>p\<in>set (v_synth st). x0 a \<le> time p \<and> time p \<le> x1 a) \<longrightarrow>
             (\<exists>pre post. v_synth st = pre @ n # post
                \<and> x0 a \<le> time n \<and> time n \<le> x1 a
                \<and> (\<forall>q\<in>set pre. x0 a \<le> time q \<and> time q \<le> x1 a \<longrightarrow>
                      \<bar>time n - ts\<bar> < \<bar>time q - ts\<bar>)
                \<and> (\<forall>q\<in>set post. x0 a \<le> time q \<and> time q \<le> x1 a \<longrightarrow>
                      \<bar>time n - ts\<bar> \<le> \<bar>time q - ts\<bar>)))
        \<and> (\<not> (\<exists>p\<in>set (v_synth st). x0 a \<le> time p \<and> time p \<le> x1 a) \<longrightarrow>
             n = hd (v_synth st)))))"
proof (intro conjI allI impI)
  show "\<exists>ch. chart_of maxArgs st = Inr ch" if "length (v_synth st) \<le> maxArgs"
    using that by (rule chart_of_returns)
next
  fix ch
  assume ch: "chart_of maxArgs st = Inr ch"
  let ?a = "activeDomain st"
  let ?ts = "cursor_time ?a (clamp (clientX e - rect_left e) 0 chart_width)"
  let ?n = "nearest_point (v_synth st) ?a ?ts"
  from onPointerMove_cross [OF assms ch, of e] obtain st' where
    m: "onPointerMove maxArgs st e = Inr st'"
    and c: "v_cross st' = Some \<lparr>cross_x = xScale ch (Fin (time ?n)), cross_y = yScale ch (pvalue ?n),
                 cross_ts = time ?n, cross_price = pvalue ?n\<rparr>"
    unfolding Let_def by blast
  have inside: "\<exists>pre post. v_synth st = pre @ ?n # post
                \<and> x0 ?a \<le> time ?n \<and> time ?n \<le> x1 ?a
                \<and> (\<forall>q\<in>set pre. x0 ?a \<le> time q \<and> time q \<le> x1 ?a \<longrightarrow>
                      \<bar>time ?n - ?ts\<bar> < \<bar>time q - ?ts\<bar>)
                \<and> (\<forall>q\<in>set post. x0 ?a \<le> time q \<and> time q \<le> x1 ?a \<longrightarrow>
                      \<bar>time ?n - ?ts\<bar> \<le> \<bar>time q - ?ts\<bar>)"
    if "\<exists>p\<in>set (v_synth st). x0 ?a \<le> time p \<and> time p \<le> x1 ?a"
  proof -
    from that have "\<exists>p\<in>set (v_synth st). x0 ?a \<le> time p \<and> time p \<le> x1 ?a
        \<and> Fin \<bar>time p - ?ts\<bar> < PInf" by simp
    from nearest_loop_first_min [OF this, of "hd (v_synth st)"]
    show ?thesis unfolding nearest_point_def by blast
  qed
  have outside: "?n = hd (v_synth st)"
    if "\<not> (\<exists>p\<in>set (v_synth st). x0 ?a \<le> time p \<and> time p \<le> x1 ?a)"
    unfolding nearest_point_def using that by (intro nearest_loop_keep) blast
  show "\<exists>st'. onPointerMove maxArgs st e = Inr st' \<and>
    (let a = activeDomain st;
         ts = cursor_time a (clamp (clientX e - rect_left e) 0 chart_width);
         n = nearest_point (v_synth st) a ts
     in v_cross st' = Some \<lparr>cross_x = xScale ch (Fin (time n)), cross_y = yScale ch (pvalue n),
                             cross_ts = time n, cross_price = pvalue n\<rparr>
        \<and> ((\<exists>p\<in>set (v_synth st). x0 a \<le> time p \<and> time p \<le> x1 a) \<longrightarrow>
             (\<exists>pre post. v_synth st = pre @ n # post
                \<and> x0 a \<le> time n \<and> time n \<le> x1 a
                \<and> (\<forall>q\<in>set pre. x0 a \<le> time q \<and> time q \<le> x1 a \<longrightarrow>
                      \<bar>time n - ts\<bar> < \<bar>time q - ts\<bar>)
                \<and> (\<forall>q\<in>set post. x0 a \<le> time q \<and> time q \<le> x1 a \<longrightarrow>
                      \<bar>time n - ts\<bar> \<le> \<bar>time q - ts\<bar>)))
        \<and> (\<not> (\<exists>p\<in>set (v_synth st). x0 a \<le> time p \<and> time p \<le> x1 a) \<longrightarrow>
             n = hd (v_synth st)))"
    unfolding Let_def using m c inside outside by blast
qed

theorem crosshair_nearest_witness:
  "\<exists>st'. onPointerMove 65536
       \<lparr>v_synth = [\<lparr>time = 0, pvalue = Fin 100\<rparr>, \<lparr>time = 1000, pvalue = Fin 110\<rparr>],
        v_interval = ''60'', v_yMode = ''linear'', v_domain = None, v_isPanning = False,
        v_panStart = None, v_cross = None\<rparr>
       \<lparr>clientX = 500, rect_left = 0, deltaY = 0\<rparr> = Inr st'
     \<and> (\<exists>c. v_cross st' = Some c \<and> 0 \<le> cross_ts c \<and> cross_ts c \<le> 1000)"
proof -
  let ?st = "\<lparr>v_synth = [\<lparr>time = 0, pvalue = Fin 100\<rparr>, \<lparr>time = 1000, pvalue = Fin 110\<rparr>],
        v_interval = ''60'', v_yMode = ''linear'', v_domain = None, v_isPanning = False,
        v_panStart = None, v_cross = None\<rparr>"
  let ?e = "\<lparr>clientX = 500, rect_left = 0, deltaY = 0\<rparr>"
  have ne: "v_synth ?st \<noteq> []" by simp
  have len: "length (v_synth ?st) \<le> 65536" by simp
  have a: "activeDomain ?st = \<lparr>x0 = 0, x1 = 1000\<rparr>"
    by (simp add: activeDomain_def fullDomain_def)
  have ex: "\<exists>p\<in>set (v_synth ?st). x0 (activeDomain ?st) \<le> time p \<and> time p \<le> x1 (activeDomain ?st)"
    unfolding a by simp
  note t = crosshair_nearest [OF ne, of 65536 ?e]
  from t len obtain ch where ch: "chart_of 65536 ?st = Inr ch" by blast
  from t [THEN conjunct2, rule_format, OF ch] ex show ?thesis
    unfolding Let_def a by (elim exE conjE) (simp, blast)
qed

text \<open>
  C8 as stated fails when no point lies within the active domain: for the series with
  times 0 and 1000 and the domain from 400 to 600 the crosshair is at time 0.
\<close>

theorem crosshair_outside_domain:
  "\<exists>st'. onPointerMove 65536
       \<lparr>v_synth = [\<lparr>time = 0, pvalue = Fin 100\<rparr>, \<lparr>time = 1000, pvalue = Fin 110\<rparr>],
        v_interval = ''60'', v_yMode = ''linear'', v_domain = Some \<lparr>x0 = 400, x1 = 600\<rparr>,
        v_isPanning = False, v_panStart = None, v_cross = None\<rparr>
       \<lparr>clientX = 500, rect_left = 0, deltaY = 0\<rparr> = Inr st'
     \<and> (\<exists>c. v_cross st' = Some c \<and> cross_ts c = 0
           \<and> \<not> (400 \<le> cross_ts c \<and> cross_ts c \<le> 600))"
proof -
  let ?st = "\<lparr>v_synth = [\<lparr>time = 0, pvalue = Fin 100\<rparr>, \<lparr>time = 1000, pvalue = Fin 110\<rparr>],
        v_interval = ''60'', v_yMode = ''linear'', v_domain = Some \<lparr>x0 = 400, x1 = 600\<rparr>,
        v_isPanning = False, v_panStart = None, v_cross = None\<rparr>"
  let ?e = "\<lparr>clientX = 500, rect_left = 0, deltaY = 0\<rparr>"
  have "length (v_synth ?st) \<le> 65536" by simp
  from chart_of_returns [OF this] obtain ch where ch: "chart_of 65536 ?st = Inr ch" by blast
  have ne: "v_synth ?st \<noteq> []" by simp
  have n: "nearest_point (v_synth ?st) (activeDomain ?st) ts = \<lparr>time = 0, pvalue = Fin 100\<rparr>" for ts
    by (simp add: nearest_point_def activeDomain_def)
  from onPointerMove_cross [OF ne ch, of ?e] show ?thesis
    unfolding Let_def n by (elim exE conjE) simp
qed

lemma exp_fifth:
  "0 < exp (- (1 / 5 :: real))" "exp (- (1 / 5 :: real)) < 1" "4 / 5 \<le> exp (- (1 / 5 :: real))"
  "1 < exp (1 / 5 :: real)" "6 / 5 \<le> exp (1 / 5 :: real)"
  "exp (- (1 / 5 :: real)) * exp (1 / 5) = 1"
proof -
  show "0 < exp (- (1 / 5 :: real))" by simp
  show "exp (- (1 / 5 :: real)) < 1" by simp
  show "4 / 5 \<le> exp (- (1 / 5 :: real))" using exp_ge_add_one_self [of "- (1 / 5 :: real)"] by simp
  show "1 < exp (1 / 5 :: real)" by simp
  show "6 / 5 \<le> exp (1 / 5 :: real)" using exp_ge_add_one_self [of "1 / 5 :: real"] by simp
  show "exp (- (1 / 5 :: real)) * exp (1 / 5) = 1" by (simp add: exp_minus)
qed

lemma cursor_time_plot:
  "cursor_time a px = x0 a + ((px - 40) / 1070) * (x1 a - x0 a)"
  by (simp add: cursor_time_def chart_width_def chart_rightMargin_def)

lemma zoom_domain_in:
  assumes px: "40 \<le> px" "px \<le> 1110"
    and w: "x0 F \<le> x0 a" "x0 a \<le> x1 a" "x1 a \<le> x1 F"
    and sp: "exp (1 / 5) * ((x1 F - x0 F) / 500) \<le> x1 a - x0 a"
    and dY: "\<not> dY > 0"
  shows "zoom_domain a F px dY =
     \<lparr>x0 = cursor_time a px - (cursor_time a px - x0 a) * exp (- (1 / 5)),
      x1 = cursor_time a px + (x1 a - cursor_time a px) * exp (- (1 / 5))\<rparr>"
proof -
  define f where "f = (px - 40) / 1070"
  define sg where "sg = x1 a - x0 a"
  define s :: real where "s = exp (- (1 / 5))"
  define m where "m = (x1 F - x0 F) / 500"
  define t where "t = cursor_time a px"
  have f: "0 \<le> f" "f \<le> 1" using px by (simp_all add: f_def)
  have sg: "0 \<le> sg" using w by (simp add: sg_def)
  have s: "0 < s" "s < 1" "s * exp (1 / 5) = 1" using exp_fifth by (simp_all add: s_def)
  have t: "t = x0 a + f * sg" by (simp add: t_def cursor_time_plot f_def sg_def)
  have n0: "t - (t - x0 a) * s = x0 a + (f * sg) * (1 - s)" by (simp add: t algebra_simps)
  have n1: "t + (x1 a - t) * s = x1 a - ((1 - f) * sg) * (1 - s)"
    by (simp add: t sg_def algebra_simps)
  have g0: "0 \<le> (f * sg) * (1 - s)" using f sg s by simp
  have g1: "0 \<le> ((1 - f) * sg) * (1 - s)" using f sg s by simp
  have d: "(t + (x1 a - t) * s) - (t - (t - x0 a) * s) = sg * s"
    by (simp add: sg_def algebra_simps)
  have le: "s * (exp (1 / 5) * m) \<le> s * sg"
    using sp s(1) by (intro mult_left_mono) (simp_all add: m_def sg_def)
  have "m = (s * exp (1 / 5)) * m" using s(3) by simp
  also have "\<dots> = s * (exp (1 / 5) * m)" by (simp only: mult.assoc)
  also have "\<dots> \<le> s * sg" by (rule le)
  finally have "m \<le> s * sg" .
  then have m: "m \<le> sg * s" by (simp only: mult.commute)
  have a0: "x0 F \<le> t - (t - x0 a) * s" using n0 g0 w by linarith
  have a1: "t + (x1 a - t) * s \<le> x1 F" using n1 g1 w by linarith
  have a2: "t - (t - x0 a) * s \<le> t + (x1 a - t) * s - m" using d m by linarith
  have a3: "t - (t - x0 a) * s + m \<le> t + (x1 a - t) * s" using d m by linarith
  have "zoom_domain a F px dY =
      \<lparr>x0 = max (x0 F) (min (t - (t - x0 a) * s) (t + (x1 a - t) * s - m)),
       x1 = min (x1 F) (max (t + (x1 a - t) * s) (t - (t - x0 a) * s + m))\<rparr>"
    using dY by (simp add: zoom_domain_def Let_def t_def s_def m_def)
  also have "\<dots> = \<lparr>x0 = t - (t - x0 a) * s, x1 = t + (x1 a - t) * s\<rparr>"
    using a0 a1 a2 a3 by (simp add: max_def min_def)
  finally show ?thesis by (simp add: t_def s_def)
qed

lemma cursor_time_zoomed:
  "cursor_time \<lparr>x0 = cursor_time a px - (cursor_time a px - x0 a) * k,
                 x1 = cursor_time a px + (x1 a - cursor_time a px) * k\<rparr> px
     = cursor_time a px"
  by (simp add: cursor_time_plot algebra_simps)

lemma zoom_domain_no_clamp:
  assumes dY: "\<not> dY > 0"
    and lo: "x0 F \<le> cursor_time a px - (cursor_time a px - x0 a) * exp (- (1 / 5))"
    and hi: "cursor_time a px + (x1 a - cursor_time a px) * exp (- (1 / 5)) \<le> x1 F"
    and sp: "(x1 F - x0 F) / 500 \<le> (x1 a - x0 a) * exp (- (1 / 5))"
  shows "zoom_domain a F px dY =
     \<lparr>x0 = cursor_time a px - (cursor_time a px - x0 a) * exp (- (1 / 5)),
      x1 = cursor_time a px + (x1 a - cursor_time a px) * exp (- (1 / 5))\<rparr>"
proof -
  define s :: real where "s = exp (- (1 / 5))"
  define m where "m = (x1 F - x0 F) / 500"
  define t where "t = cursor_time a px"
  have d: "(t + (x1 a - t) * s) - (t - (t - x0 a) * s) = (x1 a - x0 a) * s"
    by (simp add: algebra_simps)
  have m: "m \<le> (x1 a - x0 a) * s" using sp by (simp add: m_def s_def)
  have a0: "x0 F \<le> t - (t - x0 a) * s" using lo by (simp add: t_def s_def)
  have a1: "t + (x1 a - t) * s \<le> x1 F" using hi by (simp add: t_def s_def)
  have a2: "t - (t - x0 a) * s \<le> t + (x1 a - t) * s - m" using d m by linarith
  have a3: "t - (t - x0 a) * s + m \<le> t + (x1 a - t) * s" using d m by linarith
  have "zoom_domain a F px dY =
      \<lparr>x0 = max (x0 F) (min (t - (t - x0 a) * s) (t + (x1 a - t) * s - m)),
       x1 = min (x1 F) (max (t + (x1 a - t) * s) (t - (t - x0 a) * s + m))\<rparr>"
    using dY by (simp add: zoom_domain_def Let_def t_def s_def m_def)
  also have "\<dots> = \<lparr>x0 = t - (t - x0 a) * s, x1 = t + (x1 a - t) * s\<rparr>"
    using a0 a1 a2 a3 by (simp add: max_def min_def)
  finally show ?thesis by (simp add: t_def s_def)
qed

lemma zoom_domain_back:
  assumes w: "x0 F \<le> x0 a" "x0 a \<le> x1 a" "x1 a \<le> x1 F"
    and sp: "exp (1 / 5) * ((x1 F - x0 F) / 500) \<le> x1 a - x0 a"
    and dY: "dY > 0"
  shows "zoom_domain
     \<lparr>x0 = cursor_time a px - (cursor_time a px - x0 a) * exp (- (1 / 5)),
      x1 = cursor_time a px + (x1 a - cursor_time a px) * exp (- (1 / 5))\<rparr> F px dY =
     \<lparr>x0 = x0 a, x1 = x1 a\<rparr>"
proof -
  define s :: real where "s = exp (- (1 / 5))"
  define c :: real where "c = exp (1 / 5)"
  define m where "m = (x1 F - x0 F) / 500"
  define t where "t = cursor_time a px"
  define b0 where "b0 = t - (t - x0 a) * s"
  define b1 where "b1 = t + (x1 a - t) * s"
  have s: "s * c = 1" "1 < c" using exp_fifth by (simp_all add: s_def c_def)
  have t': "cursor_time \<lparr>x0 = b0, x1 = b1\<rparr> px = t"
    unfolding b0_def b1_def t_def by (rule cursor_time_zoomed)
  have "(t - b0) * c = (t - x0 a) * (s * c)" by (simp add: b0_def)
  then have r0: "t - (t - b0) * c = x0 a" using s(1) by simp
  have "(b1 - t) * c = (x1 a - t) * (s * c)" by (simp add: b1_def)
  then have r1: "t + (b1 - t) * c = x1 a" using s(1) by simp
  have m0: "0 \<le> m" using w by (simp add: m_def)
  have "1 * m \<le> c * m" using s(2) m0 by (intro mult_right_mono) simp_all
  then have m: "m \<le> x1 a - x0 a" using sp by (simp add: c_def m_def)
  have "zoom_domain \<lparr>x0 = b0, x1 = b1\<rparr> F px dY =
      \<lparr>x0 = max (x0 F) (min (t - (t - b0) * c) (t + (b1 - t) * c - m)),
       x1 = min (x1 F) (max (t + (b1 - t) * c) (t - (t - b0) * c + m))\<rparr>"
    using dY by (simp add: zoom_domain_def Let_def t' c_def m_def)
  also have "\<dots> = \<lparr>x0 = x0 a, x1 = x1 a\<rparr>"
    unfolding r0 r1 using w m by (simp add: max_def min_def)
  finally show ?thesis by (simp add: b0_def b1_def t_def s_def)
qed

lemma exp_fifth_le: "exp (1 / 5 :: real) \<le> 5 / 4" "exp (- (1 / 5 :: real)) \<le> 5 / 6"
proof -
  have "exp (1 / 5 :: real) * (4 / 5) \<le> exp (1 / 5) * exp (- (1 / 5))"
    using exp_fifth(3) by (intro mult_left_mono) simp_all
  also have "\<dots> = 1" using exp_fifth(6) by (simp only: mult.commute)
  finally show "exp (1 / 5 :: real) \<le> 5 / 4" by simp
  have "exp (- (1 / 5 :: real)) * (6 / 5) \<le> exp (- (1 / 5)) * exp (1 / 5)"
    using exp_fifth(5) by (intro mult_left_mono) simp_all
  also have "\<dots> = 1" by (rule exp_fifth(6))
  finally show "exp (- (1 / 5 :: real)) \<le> 5 / 6" by simp
qed

lemma onWheel_domain:
  assumes "v_synth st \<noteq> []"
  shows "onWheel st e =
     st\<lparr>v_domain := Some (zoom_domain (activeDomain st) (fullDomain (v_synth st))
                             (clientX e - rect_left e) (deltaY e))\<rparr>"
  using assms by (simp add: onWheel_def)

text \<open>
  C2. Let the active domain \<open>D\<close> lie within the full extent, with a span of at least
  \<open>exp(0.2)\<close> times a 500th of the full extent, and let a zoom-in event, at any cursor
  pixel, be one where no clamp binds: the domain it sets is \<open>D\<close> scaled by \<open>exp(-0.2)\<close>
  about the cursor's timestamp. Then the cursor pixel maps to the same timestamp under
  the zoomed domain as under \<open>D\<close>, and a zoom-out event at the same cursor position gives
  back \<open>D\<close>.
\<close>

theorem zoom_in_out_identity:
  assumes "v_synth st \<noteq> []"
    and "x0 (fullDomain (v_synth st)) \<le> x0 (activeDomain st)"
    and "x0 (activeDomain st) \<le> x1 (activeDomain st)"
    and "x1 (activeDomain st) \<le> x1 (fullDomain (v_synth st))"
    and "exp (1 / 5) * ((x1 (fullDomain (v_synth st)) - x0 (fullDomain (v_synth st))) / 500)
         \<le> x1 (activeDomain st) - x0 (activeDomain st)"
    and "\<not> deltaY e_in > 0" and "deltaY e_out > 0"
    and "clientX e_out - rect_left e_out = clientX e_in - rect_left e_in"
    and "v_domain (onWheel st e_in) =
           Some \<lparr>x0 = cursor_time (activeDomain st) (clientX e_in - rect_left e_in)
                       - (cursor_time (activeDomain st) (clientX e_in - rect_left e_in)
                          - x0 (activeDomain st)) * exp (- (1 / 5)),
                 x1 = cursor_time (activeDomain st) (clientX e_in - rect_left e_in)
                       + (x1 (activeDomain st)
                          - cursor_time (activeDomain st) (clientX e_in - rect_left e_in))
                         * exp (- (1 / 5))\<rparr>"
  shows "cursor_time (activeDomain (onWheel st e_in)) (clientX e_in - rect_left e_in)
           = cursor_time (activeDomain st) (clientX e_in - rect_left e_in)
    \<and> v_domain (onWheel (onWheel st e_in) e_out) = Some (activeDomain st)"
proof -
  let ?a = "activeDomain st" and ?F = "fullDomain (v_synth st)"
  let ?px = "clientX e_in - rect_left e_in"
  let ?D = "\<lparr>x0 = cursor_time ?a ?px - (cursor_time ?a ?px - x0 ?a) * exp (- (1 / 5)),
            x1 = cursor_time ?a ?px + (x1 ?a - cursor_time ?a ?px) * exp (- (1 / 5))\<rparr>"
  have 2: "zoom_domain ?D ?F ?px (deltaY e_out) = \<lparr>x0 = x0 ?a, x1 = x1 ?a\<rparr>"
    by (rule zoom_domain_back [OF assms(2,3,4,5,7)])
  let ?st1 = "onWheel st e_in"
  have s1: "?st1 = st\<lparr>v_domain := Some ?D\<rparr>"
    using onWheel_domain [OF assms(1), of e_in] assms(9) by simp
  have ne1: "v_synth ?st1 \<noteq> []" using s1 assms(1) by simp
  have a1: "activeDomain ?st1 = ?D" using s1 by (simp add: activeDomain_def)
  have f1: "fullDomain (v_synth ?st1) = ?F" using s1 by simp
  have c: "cursor_time (activeDomain ?st1) ?px = cursor_time ?a ?px"
    unfolding a1 by (rule cursor_time_zoomed)
  have "onWheel ?st1 e_out = ?st1\<lparr>v_domain := Some \<lparr>x0 = x0 ?a, x1 = x1 ?a\<rparr>\<rparr>"
    using onWheel_domain [OF ne1, of e_out] 2 unfolding a1 f1 assms(8) by simp
  then have "v_domain (onWheel ?st1 e_out) = Some ?a" by simp
  with c show ?thesis by blast
qed

theorem zoom_in_out_identity_witness:
  "v_domain (onWheel (onWheel
       \<lparr>v_synth = [\<lparr>time = 0, pvalue = Fin 100\<rparr>, \<lparr>time = 1000, pvalue = Fin 110\<rparr>],
        v_interval = ''60'', v_yMode = ''linear'', v_domain = Some \<lparr>x0 = 400, x1 = 600\<rparr>,
        v_isPanning = False, v_panStart = None, v_cross = None\<rparr>
       \<lparr>clientX = 0, rect_left = 0, deltaY = - 100\<rparr>)
       \<lparr>clientX = 0, rect_left = 0, deltaY = 100\<rparr>) = Some \<lparr>x0 = 400, x1 = 600\<rparr>"
proof -
  let ?st = "\<lparr>v_synth = [\<lparr>time = 0, pvalue = Fin 100\<rparr>, \<lparr>time = 1000, pvalue = Fin 110\<rparr>],
        v_interval = ''60'', v_yMode = ''linear'', v_domain = Some \<lparr>x0 = 400, x1 = 600\<rparr>,
        v_isPanning = False, v_panStart = None, v_cross = None\<rparr>"
  let ?e_in = "\<lparr>clientX = 0, rect_left = 0, deltaY = - 100\<rparr>"
  let ?e_out = "\<lparr>clientX = 0, rect_left = 0, deltaY = 100\<rparr>"
  define s :: real where "s = exp (- (1 / 5))"
  define t :: real where "t = 400 - 800 / 107"
  have s: "4 / 5 \<le> s" "s < 1" using exp_fifth by (simp_all add: s_def)
  have a: "activeDomain ?st = \<lparr>x0 = 400, x1 = 600\<rparr>"
    by (simp add: activeDomain_def)
  have f: "fullDomain (v_synth ?st) = \<lparr>x0 = 0, x1 = 1000\<rparr>"
    by (simp add: fullDomain_def)
  have t: "cursor_time \<lparr>x0 = 400, x1 = 600\<rparr> 0 = t" by (simp add: cursor_time_plot t_def)
  have ne: "v_synth ?st \<noteq> []" by simp
  have "t - (t - 400) * s = t * (1 - s) + 400 * s" by (simp add: algebra_simps)
  moreover have "0 \<le> t * (1 - s)" using s by (simp add: t_def)
  ultimately have lo: "0 \<le> t - (t - 400) * s" using s by simp
  have "t + (600 - t) * s = t * (1 - s) + 600 * s" by (simp add: algebra_simps)
  moreover have "t * (1 - s) \<le> t * 1" using s by (intro mult_left_mono) (simp_all add: t_def)
  ultimately have hi: "t + (600 - t) * s \<le> 1000" using s by (simp add: t_def)
  have sp0: "(1000 - 0) / 500 \<le> (600 - 400) * s" using s by simp
  have z: "zoom_domain \<lparr>x0 = 400, x1 = 600\<rparr> \<lparr>x0 = 0, x1 = 1000\<rparr> 0 (- 100) =
      \<lparr>x0 = t - (t - 400) * s, x1 = t + (600 - t) * s\<rparr>"
    using zoom_domain_no_clamp [of "- 100" "\<lparr>x0 = 0, x1 = 1000\<rparr>" "\<lparr>x0 = 400, x1 = 600\<rparr>" 0]
      lo hi sp0 by (simp add: t s_def)
  have nc: "v_domain (onWheel ?st ?e_in) =
           Some \<lparr>x0 = cursor_time (activeDomain ?st) (clientX ?e_in - rect_left ?e_in)
                       - (cursor_time (activeDomain ?st) (clientX ?e_in - rect_left ?e_in)
                          - x0 (activeDomain ?st)) * exp (- (1 / 5)),
                 x1 = cursor_time (activeDomain ?st) (clientX ?e_in - rect_left ?e_in)
                       + (x1 (activeDomain ?st)
                          - cursor_time (activeDomain ?st) (clientX ?e_in - rect_left ?e_in))
                         * exp (- (1 / 5))\<rparr>"
    unfolding onWheel_domain [OF ne] a f by (simp add: z t s_def)
  have sp: "exp (1 / 5) * ((x1 (fullDomain (v_synth ?st)) - x0 (fullDomain (v_synth ?st))) / 500)
         \<le> x1 (activeDomain ?st) - x0 (activeDomain ?st)"
    unfolding a f using exp_fifth_le(1) by simp
  have "v_domain (onWheel (onWheel ?st ?e_in) ?e_out) = Some (activeDomain ?st)"
    using zoom_in_out_identity [OF ne _ _ _ sp _ _ _ nc, of ?e_out]
    by (simp add: a fullDomain_def)
  then show ?thesis unfolding a .
qed

text \<open>
  In the plot area, from pixel 40 to pixel \<open>width - rightMargin = 1110\<close>, no clamp binds
  on such a domain (\<open>zoom_domain_in\<close>). Outside it a clamp can bind, and then the round
  trip need not give the domain back: from the full domain 0 to 1000, zooming in at pixel
  0 is clamped at the left edge, and zooming out then moves the left edge to the right.
\<close>

lemma zoom_in_left_padding:
  "\<exists>b. zoom_domain \<lparr>x0 = 0, x1 = 1000\<rparr> \<lparr>x0 = 0, x1 = 1000\<rparr> 0 (- 100) = \<lparr>x0 = 0, x1 = b\<rparr>
       \<and> 2 < b"
proof -
  define s :: real where "s = exp (- (1 / 5))"
  define t :: real where "t = - 4000 / 107"
  have s: "4 / 5 \<le> s" "s < 1" using exp_fifth by (simp_all add: s_def)
  have t: "cursor_time \<lparr>x0 = 0, x1 = 1000\<rparr> 0 = t" by (simp add: cursor_time_plot t_def)
  define n0 where "n0 = t - (t - 0) * s"
  define n1 where "n1 = t + (1000 - t) * s"
  have "n0 = t * (1 - s)" by (simp add: n0_def algebra_simps)
  moreover have "t * (1 - s) < 0" using s by (simp add: t_def mult_neg_pos)
  ultimately have n0: "n0 < 0" by simp
  have "n1 = 1000 * s + t * (1 - s)" by (simp add: n1_def algebra_simps)
  moreover have "t * (1 / 5) \<le> t * (1 - s)" using s by (intro mult_left_mono_neg) (simp_all add: t_def)
  ultimately have n1: "800 + t * (1 / 5) \<le> n1" using s by linarith
  have z: "zoom_domain \<lparr>x0 = 0, x1 = 1000\<rparr> \<lparr>x0 = 0, x1 = 1000\<rparr> 0 (- 100) =
      \<lparr>x0 = max 0 (min n0 (n1 - 2)), x1 = min 1000 (max n1 (n0 + 2))\<rparr>"
    by (simp add: zoom_domain_def Let_def t n0_def n1_def s_def)
  have "max 0 (min n0 (n1 - 2)) = 0" using n0 by (simp add: max_def min_def)
  moreover have "2 < min 1000 (max n1 (n0 + 2))" using n1 by (simp add: t_def min_def max_def)
  ultimately show ?thesis using z by simp
qed

lemma zoom_out_left_padding:
  assumes "2 < b"
  shows "0 < x0 (zoom_domain \<lparr>x0 = 0, x1 = b\<rparr> \<lparr>x0 = 0, x1 = 1000\<rparr> 0 100)"
proof -
  define c :: real where "c = exp (1 / 5)"
  define t :: real where "t = - (4 / 107) * b"
  have c: "1 < c" using exp_fifth by (simp add: c_def)
  have t: "cursor_time \<lparr>x0 = 0, x1 = b\<rparr> 0 = t" by (simp add: cursor_time_plot t_def)
  have tn: "t < 0" using assms by (simp add: t_def)
  define n0 where "n0 = t - (t - 0) * c"
  define n1 where "n1 = t + (b - t) * c"
  have "n0 = (- t) * (c - 1)" by (simp add: n0_def algebra_simps)
  moreover have "0 < (- t) * (c - 1)" using tn c by (intro mult_pos_pos) simp_all
  ultimately have n0: "0 < n0" by simp
  have "n1 - n0 = b * c" by (simp add: n1_def n0_def algebra_simps)
  moreover have "b * 1 < b * c" using assms c by (intro mult_strict_left_mono) simp_all
  ultimately have n1: "n0 + 2 < n1" using assms by linarith
  have "zoom_domain \<lparr>x0 = 0, x1 = b\<rparr> \<lparr>x0 = 0, x1 = 1000\<rparr> 0 100 =
      \<lparr>x0 = max 0 (min n0 (n1 - 2)), x1 = min 1000 (max n1 (n0 + 2))\<rparr>"
    by (simp add: zoom_domain_def Let_def t n0_def n1_def c_def)
  then show ?thesis using n0 n1 by (simp add: max_def min_def)
qed

lemma zoom_clamped_no_round_trip:
  "\<exists>d. v_domain (onWheel (onWheel
       \<lparr>v_synth = [\<lparr>time = 0, pvalue = Fin 100\<rparr>, \<lparr>time = 1000, pvalue = Fin 110\<rparr>],
        v_interval = ''60'', v_yMode = ''linear'', v_domain = Some \<lparr>x0 = 0, x1 = 1000\<rparr>,
        v_isPanning = False, v_panStart = None, v_cross = None\<rparr>
       \<lparr>clientX = 0, rect_left = 0, deltaY = - 100\<rparr>)
       \<lparr>clientX = 0, rect_left = 0, deltaY = 100\<rparr>) = Some d
     \<and> d \<noteq> \<lparr>x0 = 0, x1 = 1000\<rparr>"
proof -
  let ?st = "\<lparr>v_synth = [\<lparr>time = 0, pvalue = Fin 100\<rparr>, \<lparr>time = 1000, pvalue = Fin 110\<rparr>],
        v_interval = ''60'', v_yMode = ''linear'', v_domain = Some \<lparr>x0 = 0, x1 = 1000\<rparr>,
        v_isPanning = False, v_panStart = None, v_cross = None\<rparr>"
  obtain b where b: "zoom_domain \<lparr>x0 = 0, x1 = 1000\<rparr> \<lparr>x0 = 0, x1 = 1000\<rparr> 0 (- 100) = \<lparr>x0 = 0, x1 = b\<rparr>"
    and b2: "2 < b" using zoom_in_left_padding by blast
  let ?d = "zoom_domain \<lparr>x0 = 0, x1 = b\<rparr> \<lparr>x0 = 0, x1 = 1000\<rparr> 0 100"
  have "v_domain (onWheel (onWheel ?st \<lparr>clientX = 0, rect_left = 0, deltaY = - 100\<rparr>)
       \<lparr>clientX = 0, rect_left = 0, deltaY = 100\<rparr>) = Some ?d"
    by (simp add: onWheel_def activeDomain_def fullDomain_def b)
  moreover have "?d \<noteq> \<lparr>x0 = 0, x1 = 1000\<rparr>"
    using zoom_out_left_padding [OF b2] by auto
  ultimately show ?thesis by blast
qed

text \<open>
  C5 at a cursor far to the right of the plot: from the full domain 0 to 1000, a zoom-in
  event at pixel 7530 sets a domain whose left edge is beyond the full extent and to the
  right of its right edge. (\<open>onWheel\<close> uses \<open>e.clientX - rect.left\<close> as it is, and the
  chart is as wide as its container.) For a cursor from pixel 0 to pixel 1200 the zoom
  keeps the domain within the full extent (\<open>zoom_domain_inside\<close>); the pan branch
  keeps it there for every pointer position (\<open>pan_domain_inside\<close>) and clamps at the
  left edge with the span kept (\<open>pan_domain_left_edge\<close>).
\<close>

theorem zoom_far_cursor_inverts:
  "\<exists>d. v_domain (onWheel
       \<lparr>v_synth = [\<lparr>time = 0, pvalue = Fin 100\<rparr>, \<lparr>time = 1000, pvalue = Fin 110\<rparr>],
        v_interval = ''60'', v_yMode = ''linear'', v_domain = Some \<lparr>x0 = 0, x1 = 1000\<rparr>,
        v_isPanning = False, v_panStart = None, v_cross = None\<rparr>
       \<lparr>clientX = 7530, rect_left = 0, deltaY = - 100\<rparr>) = Some d
     \<and> x1 d < x0 d \<and> 1000 < x0 d"
proof -
  define s :: real where "s = exp (- (1 / 5))"
  have s: "4 / 5 \<le> s" "s \<le> 5 / 6" using exp_fifth exp_fifth_le by (simp_all add: s_def)
  have t: "cursor_time \<lparr>x0 = 0, x1 = 1000\<rparr> 7530 = 7000" by (simp add: cursor_time_plot)
  define n0 where "n0 = 7000 - (7000 - 0) * s"
  define n1 where "n1 = 7000 + (1000 - 7000) * s"
  have n0: "1000 < n0" using s by (simp add: n0_def)
  have n1: "n0 + 2 \<le> n1" using s by (simp add: n0_def n1_def)
  let ?d = "\<lparr>x0 = max 0 (min n0 (n1 - 2)), x1 = min 1000 (max n1 (n0 + 2))\<rparr>"
  have z: "zoom_domain \<lparr>x0 = 0, x1 = 1000\<rparr> \<lparr>x0 = 0, x1 = 1000\<rparr> 7530 (- 100) = ?d"
    by (simp add: zoom_domain_def Let_def t n0_def n1_def s_def)
  have "v_domain (onWheel
       \<lparr>v_synth = [\<lparr>time = 0, pvalue = Fin 100\<rparr>, \<lparr>time = 1000, pvalue = Fin 110\<rparr>],
        v_interval = ''60'', v_yMode = ''linear'', v_domain = Some \<lparr>x0 = 0, x1 = 1000\<rparr>,
        v_isPanning = False, v_panStart = None, v_cross = None\<rparr>
       \<lparr>clientX = 7530, rect_left = 0, deltaY = - 100\<rparr>) = Some ?d"
    by (simp add: onWheel_def activeDomain_def fullDomain_def z)
  moreover have "x1 ?d < x0 ?d \<and> 1000 < x0 ?d" using n0 n1 by (simp add: max_def min_def)
  ultimately show ?thesis by blast
qed

lemma zoom_domain_inside:
  assumes px: "0 \<le> px" "px \<le> chart_width"
    and w: "x0 F \<le> x0 a" "x0 a < x1 a" "x1 a \<le> x1 F"
  shows "x0 F \<le> x0 (zoom_domain a F px dY)
         \<and> x0 (zoom_domain a F px dY) < x1 (zoom_domain a F px dY)
         \<and> x1 (zoom_domain a F px dY) \<le> x1 F"
proof -
  define f where "f = (px - 40) / 1070"
  define sg where "sg = x1 a - x0 a"
  define k :: real where "k = (if dY > 0 then exp (1 / 5) else exp (- (1 / 5)))"
  define m where "m = (x1 F - x0 F) / 500"
  define t where "t = cursor_time a px"
  define n0 where "n0 = t - (t - x0 a) * k"
  define n1 where "n1 = t + (x1 a - t) * k"
  have fb: "- (4 / 107) \<le> f" "f \<le> 116 / 107"
    using px by (simp_all add: f_def chart_width_def field_simps)
  have f: "\<bar>f\<bar> \<le> 116 / 107" "\<bar>1 - f\<bar> \<le> 111 / 107"
    using fb by linarith+
  have k: "\<bar>1 - k\<bar> \<le> 1 / 4"
    using exp_fifth exp_fifth_le by (simp add: k_def abs_le_iff)
  have sg: "0 < sg" using w by (simp add: sg_def)
  have m: "0 < m" using w by (simp add: m_def)
  have t: "t = x0 a + f * sg" by (simp add: t_def cursor_time_plot f_def sg_def)
  have "\<bar>f * (1 - k)\<bar> \<le> (116 / 107) * (1 / 4)"
    unfolding abs_mult using f(1) k by (intro mult_mono) simp_all
  then have p: "f * (1 - k) < 1" by (simp add: abs_le_iff)
  have "\<bar>(1 - f) * (1 - k)\<bar> \<le> (111 / 107) * (1 / 4)"
    unfolding abs_mult using f(2) k by (intro mult_mono) simp_all
  then have q: "(1 - f) * (1 - k) < 1" by (simp add: abs_le_iff)
  have sgd: "sg = x1 a - x0 a" by (simp add: sg_def)
  have e0: "n0 = x0 a + (f * (1 - k)) * sg" by (simp add: n0_def t algebra_simps)
  have "(f * (1 - k)) * sg < 1 * sg" using p sg by (intro mult_strict_right_mono)
  then have l0: "(f * (1 - k)) * sg < sg" by simp
  have n0: "n0 < x1 F" using e0 l0 sgd w by linarith
  have e1: "n1 = x1 a - ((1 - f) * (1 - k)) * sg" by (simp add: n1_def t sg_def algebra_simps)
  have "((1 - f) * (1 - k)) * sg < 1 * sg" using q sg by (intro mult_strict_right_mono)
  then have l1: "((1 - f) * (1 - k)) * sg < sg" by simp
  have n1: "x0 F < n1" using e1 l1 sgd w by linarith
  have z: "zoom_domain a F px dY =
      \<lparr>x0 = max (x0 F) (min n0 (n1 - m)), x1 = min (x1 F) (max n1 (n0 + m))\<rparr>"
    by (simp add: zoom_domain_def Let_def t_def k_def m_def n0_def n1_def)
  show ?thesis unfolding z using n0 n1 m w by (auto simp: max_def min_def)
qed

lemma pan_domain_inside:
  assumes "x0 F \<le> pan_x0 ps" "pan_x0 ps < pan_x1 ps" "pan_x1 ps \<le> x1 F"
  shows "x0 F \<le> x0 (pan_domain ps F cx) \<and> x0 (pan_domain ps F cx) < x1 (pan_domain ps F cx)
         \<and> x1 (pan_domain ps F cx) \<le> x1 F"
proof -
  define dt where "dt = (- (cx - pan_x ps) / max 1 (chart_width - 40 - chart_rightMargin))
                 * (pan_x1 ps - pan_x0 ps)"
  define m where "m = (x1 F - x0 F) / 1000"
  define a0 where "a0 = pan_x0 ps + dt"
  define a1 where "a1 = (if pan_x1 ps + dt - a0 < m then a0 + m else pan_x1 ps + dt)"
  define b0 where "b0 = (if a0 < x0 F then x0 F else a0)"
  define b1 where "b1 = (if a0 < x0 F then a1 + (x0 F - a0) else a1)"
  have eq: "pan_domain ps F cx =
      \<lparr>x0 = (if b1 > x1 F then b0 - (b1 - x1 F) else b0),
       x1 = (if b1 > x1 F then x1 F else b1)\<rparr>"
    unfolding pan_domain_def Let_def b1_def b0_def a1_def a0_def m_def dt_def by (rule refl)
  have m: "0 < m" "m \<le> x1 F - x0 F" using assms by (simp_all add: m_def)
  have sp: "0 < a1 - a0" "a1 - a0 \<le> x1 F - x0 F"
    using assms m by (auto simp: a0_def a1_def)
  have bb: "b1 - b0 = a1 - a0" "x0 F \<le> b0" by (auto simp: b0_def b1_def)
  show ?thesis unfolding eq using sp bb by auto
qed

lemma pan_domain_left_edge:
  assumes "pan_x0 ps = x0 F" "pan_x0 ps < pan_x1 ps" "pan_x1 ps \<le> x1 F"
    and "pan_x ps \<le> cx"
    and "(x1 F - x0 F) / 1000 \<le> pan_x1 ps - pan_x0 ps"
  shows "pan_domain ps F cx = \<lparr>x0 = x0 F, x1 = pan_x1 ps\<rparr>"
proof -
  define dt where "dt = (- (cx - pan_x ps) / max 1 (chart_width - 40 - chart_rightMargin))
                 * (pan_x1 ps - pan_x0 ps)"
  define m where "m = (x1 F - x0 F) / 1000"
  define a0 where "a0 = pan_x0 ps + dt"
  define a1 where "a1 = (if pan_x1 ps + dt - a0 < m then a0 + m else pan_x1 ps + dt)"
  define b0 where "b0 = (if a0 < x0 F then x0 F else a0)"
  define b1 where "b1 = (if a0 < x0 F then a1 + (x0 F - a0) else a1)"
  have eq: "pan_domain ps F cx =
      \<lparr>x0 = (if b1 > x1 F then b0 - (b1 - x1 F) else b0),
       x1 = (if b1 > x1 F then x1 F else b1)\<rparr>"
    unfolding pan_domain_def Let_def b1_def b0_def a1_def a0_def m_def dt_def by (rule refl)
  have M: "0 < max 1 (chart_width - 40 - chart_rightMargin)" by simp
  have "- (cx - pan_x ps) \<le> 0" using assms(4) by simp
  then have "- (cx - pan_x ps) / max 1 (chart_width - 40 - chart_rightMargin) \<le> 0"
    using M by (intro divide_nonpos_pos)
  then have dt: "dt \<le> 0" unfolding dt_def using assms(2) by (intro mult_nonpos_nonneg) simp_all
  have a1: "a1 = pan_x1 ps + dt" using assms(5) by (simp add: a1_def a0_def m_def)
  have b0: "b0 = x0 F" using dt assms(1) by (auto simp: b0_def a0_def)
  have b1: "b1 = pan_x1 ps" using dt assms(1) by (auto simp: b1_def a0_def a1)
  show ?thesis unfolding eq b0 b1 using assms(3) by simp
qed

end
